theory Spec2Isabelle
  imports Complex_Main
begin

section \<open>Numbers\<close>

text \<open>
  The package computes with \<open>decimal.Decimal\<close> under Python's default context and, in
  one place, with a binary double. Both are modelled by the real number a finite value
  stands for, together with the special values, and every arithmetic operation rounds
  its exact result as the format does. The sign of a zero and the payload of a NaN are
  not modelled.
\<close>

text \<open>Rounding to the nearest integer, ties to the even one.\<close>

definition round_half_even :: "real \<Rightarrow> int" where
  "round_half_even x =
     (let f = \<lfloor>x\<rfloor>; d = x - of_int f
      in if d < 1 / 2 then f else if 1 / 2 < d then f + 1 else if even f then f else f + 1)"

text \<open>
  The exponent of the leading digit of a non-zero number in base \<open>b\<close>, and the number
  rounded to a multiple of \<open>b\<close> to the power \<open>q\<close>.
\<close>

definition exponent :: "nat \<Rightarrow> real \<Rightarrow> int" where
  "exponent b x = \<lfloor>log (real b) \<bar>x\<bar>\<rfloor>"

definition round_at :: "nat \<Rightarrow> int \<Rightarrow> real \<Rightarrow> real" where
  "round_at b q x = of_int (round_half_even (x / real b powi q)) * real b powi q"

datatype decimal = Fin real | Infinity | NegInfinity | NaN | SNaN

datatype double = DFin real | DPosInf | DNegInf | DNaN

text \<open>
  Exceptions are values. Each constructor is an exception class and carries the message,
  the first argument of the exception. \<open>OtherError\<close> is an exception of any other class
  that a caller's function raises: it carries the name of the class and whether the
  class can be called without arguments. \<open>RuntimeErrorFrom\<close> is the \<open>RuntimeError\<close>
  that the context manager raises on exit: it carries the exception that escaped the
  body.
\<close>

datatype error =
    AttributeError string
  | TypeError string
  | ValueError string
  | RuntimeError string
  | NotImplementedError string
  | InvalidOperation string
  | Overflow string
  | DivisionByZero string
  | ZeroDivisionError string
  | OtherError string bool
  | RuntimeErrorFrom string error

text \<open>
  Whether calling the class of an exception without arguments gives an instance: the
  built-in classes and the signals of \<open>decimal\<close> do.
\<close>

fun callable_without_arguments :: "error \<Rightarrow> bool" where
  "callable_without_arguments (OtherError cls b) = b"
| "callable_without_arguments e = True"

subsection \<open>The default decimal context\<close>

text \<open>
  Precision 28, rounding half-even, exponents from -999999 to 999999, and the traps
  \<open>InvalidOperation\<close>, \<open>DivisionByZero\<close> and \<open>Overflow\<close> enabled.
\<close>

definition context_prec :: int where
  "context_prec = 28"

definition Emax :: int where
  "Emax = 999999"

definition Emin :: int where
  "Emin = - 999999"

definition Etiny :: int where
  "Etiny = Emin - (context_prec - 1)"

text \<open>
  What the context makes of the exact result \<open>x\<close> of an operation: \<open>x\<close> rounded to 28
  significant digits, or to a multiple of 10 to the power \<open>Etiny\<close> when it is
  subnormal, and \<open>Overflow\<close> when the rounded value is beyond \<open>Emax\<close>.
\<close>

definition context_round :: "real \<Rightarrow> error + decimal" where
  "context_round x =
     (if x = 0 then Inr (Fin 0)
      else (let r = round_at 10 (max (exponent 10 x - (context_prec - 1)) Etiny) x
            in if 10 powi (Emax + 1) \<le> \<bar>r\<bar> then Inl (Overflow ''above Emax'')
               else Inr (Fin r)))"

definition negative :: "decimal \<Rightarrow> bool" where
  "negative d = (case d of Fin x \<Rightarrow> x < 0 | NegInfinity \<Rightarrow> True | _ \<Rightarrow> False)"

text \<open>\<open>a + b\<close>, \<open>a * b\<close> and \<open>a / b\<close> on decimals.\<close>

fun decimal_add :: "decimal \<Rightarrow> decimal \<Rightarrow> error + decimal" where
  "decimal_add SNaN b = Inl (InvalidOperation ''sNaN'')"
| "decimal_add a SNaN = Inl (InvalidOperation ''sNaN'')"
| "decimal_add NaN b = Inr NaN"
| "decimal_add a NaN = Inr NaN"
| "decimal_add (Fin x) (Fin y) = context_round (x + y)"
| "decimal_add Infinity NegInfinity = Inl (InvalidOperation ''-INF + INF'')"
| "decimal_add NegInfinity Infinity = Inl (InvalidOperation ''-INF + INF'')"
| "decimal_add Infinity b = Inr Infinity"
| "decimal_add NegInfinity b = Inr NegInfinity"
| "decimal_add a Infinity = Inr Infinity"
| "decimal_add a NegInfinity = Inr NegInfinity"

fun decimal_mul :: "decimal \<Rightarrow> decimal \<Rightarrow> error + decimal" where
  "decimal_mul SNaN b = Inl (InvalidOperation ''sNaN'')"
| "decimal_mul a SNaN = Inl (InvalidOperation ''sNaN'')"
| "decimal_mul NaN b = Inr NaN"
| "decimal_mul a NaN = Inr NaN"
| "decimal_mul (Fin x) (Fin y) = context_round (x * y)"
| "decimal_mul a b =
     (if a = Fin 0 \<or> b = Fin 0 then Inl (InvalidOperation ''(+-)INF * 0'')
      else Inr (if negative a = negative b then Infinity else NegInfinity))"

fun decimal_div :: "decimal \<Rightarrow> decimal \<Rightarrow> error + decimal" where
  "decimal_div SNaN b = Inl (InvalidOperation ''sNaN'')"
| "decimal_div a SNaN = Inl (InvalidOperation ''sNaN'')"
| "decimal_div NaN b = Inr NaN"
| "decimal_div a NaN = Inr NaN"
| "decimal_div (Fin x) (Fin y) =
     (if y = 0
      then (if x = 0 then Inl (InvalidOperation ''0 / 0'') else Inl (DivisionByZero ''x / 0''))
      else context_round (x / y))"
| "decimal_div (Fin x) b = Inr (Fin 0)"
| "decimal_div a (Fin y) = Inr (if negative a = (y < 0) then Infinity else NegInfinity)"
| "decimal_div a b = Inl (InvalidOperation ''(+-)INF / (+-)INF'')"

text \<open>\<open>a < b\<close> on decimals: an ordering comparison that involves a NaN raises.\<close>

fun decimal_less :: "decimal \<Rightarrow> decimal \<Rightarrow> error + bool" where
  "decimal_less NaN b = Inl (InvalidOperation ''comparison involving NaN'')"
| "decimal_less SNaN b = Inl (InvalidOperation ''comparison involving NaN'')"
| "decimal_less a NaN = Inl (InvalidOperation ''comparison involving NaN'')"
| "decimal_less a SNaN = Inl (InvalidOperation ''comparison involving NaN'')"
| "decimal_less (Fin x) (Fin y) = Inr (x < y)"
| "decimal_less a Infinity = Inr (a \<noteq> Infinity)"
| "decimal_less NegInfinity b = Inr (b \<noteq> NegInfinity)"
| "decimal_less a b = Inr False"

text \<open>The truth value of a decimal: every decimal but zero is true.\<close>

definition decimal_truthy :: "decimal \<Rightarrow> bool" where
  "decimal_truthy d = (d \<noteq> Fin 0)"

text \<open>
  The built-in \<open>sum\<close> over a list of decimals: it starts from the integer 0 and adds
  the items from left to right, so that the context rounds after every addition, the
  first one included.
\<close>

fun sum_from :: "decimal \<Rightarrow> decimal list \<Rightarrow> error + decimal" where
  "sum_from acc [] = Inr acc"
| "sum_from acc (d # ds) =
     (case decimal_add acc d of Inl e \<Rightarrow> Inl e | Inr acc' \<Rightarrow> sum_from acc' ds)"

definition py_sum :: "decimal list \<Rightarrow> error + decimal" where
  "py_sum ds = sum_from (Fin 0) ds"

text \<open>
  The built-ins \<open>max\<close> and \<open>min\<close> over a non-empty list, from its first item: \<open>max\<close>
  replaces the held item by an item that is greater, \<open>min\<close> by an item that is less.
\<close>

fun max_from :: "decimal \<Rightarrow> decimal list \<Rightarrow> error + decimal" where
  "max_from m [] = Inr m"
| "max_from m (d # ds) =
     (case decimal_less m d of
        Inl e \<Rightarrow> Inl e
      | Inr gt \<Rightarrow> max_from (if gt then d else m) ds)"

fun min_from :: "decimal \<Rightarrow> decimal list \<Rightarrow> error + decimal" where
  "min_from m [] = Inr m"
| "min_from m (d # ds) =
     (case decimal_less d m of
        Inl e \<Rightarrow> Inl e
      | Inr lt \<Rightarrow> min_from (if lt then d else m) ds)"

subsection \<open>Doubles\<close>

text \<open>
  The double nearest to a real number: 53 significant bits, multiples of 2 to the power
  -1074 in the subnormal range, and an infinity from 2 to the power 1024 on.
\<close>

definition round_double :: "real \<Rightarrow> double" where
  "round_double x =
     (if x = 0 then DFin 0
      else (let r = round_at 2 (max (exponent 2 x - 52) (- 1074)) x
            in if 2 powi 1024 \<le> \<bar>r\<bar> then (if 0 < x then DPosInf else DNegInf)
               else DFin r))"

text \<open>\<open>float(d)\<close> for a decimal \<open>d\<close>, and \<open>Decimal(f)\<close> for a float \<open>f\<close>, which is exact.\<close>

fun float_of_decimal :: "decimal \<Rightarrow> error + double" where
  "float_of_decimal (Fin x) = Inr (round_double x)"
| "float_of_decimal Infinity = Inr DPosInf"
| "float_of_decimal NegInfinity = Inr DNegInf"
| "float_of_decimal NaN = Inr DNaN"
| "float_of_decimal SNaN = Inl (ValueError ''cannot convert signaling NaN to float'')"

fun decimal_of_double :: "double \<Rightarrow> decimal" where
  "decimal_of_double (DFin x) = Fin x"
| "decimal_of_double DPosInf = Infinity"
| "decimal_of_double DNegInf = NegInfinity"
| "decimal_of_double DNaN = NaN"

text \<open>
  \<open>math.sqrt(d)\<close> for a decimal \<open>d\<close>: the argument is converted to a double, and the
  square root of a double is the double nearest to the exact root.
\<close>

fun sqrt_double :: "double \<Rightarrow> error + double" where
  "sqrt_double (DFin x) =
     (if x < 0 then Inl (ValueError ''math domain error'') else Inr (round_double (sqrt x)))"
| "sqrt_double DPosInf = Inr DPosInf"
| "sqrt_double DNegInf = Inl (ValueError ''math domain error'')"
| "sqrt_double DNaN = Inr DNaN"

definition math_sqrt :: "decimal \<Rightarrow> error + double" where
  "math_sqrt d = (case float_of_decimal d of Inl e \<Rightarrow> Inl e | Inr f \<Rightarrow> sqrt_double f)"

text \<open>\<open>a < b\<close> on doubles: a comparison with a NaN is false.\<close>

fun double_less :: "double \<Rightarrow> double \<Rightarrow> bool" where
  "double_less DNaN b = False"
| "double_less a DNaN = False"
| "double_less (DFin x) (DFin y) = (x < y)"
| "double_less a DPosInf = (a \<noteq> DPosInf)"
| "double_less DNegInf b = (b \<noteq> DNegInf)"
| "double_less a b = False"

text \<open>
  \<open>a - b\<close> and \<open>a / b\<close> on Python floats: the exact result is rounded to the nearest
  double, and a division by zero raises.
\<close>

fun double_sub :: "double \<Rightarrow> double \<Rightarrow> double" where
  "double_sub DNaN b = DNaN"
| "double_sub a DNaN = DNaN"
| "double_sub (DFin x) (DFin y) = round_double (x - y)"
| "double_sub DPosInf DPosInf = DNaN"
| "double_sub DNegInf DNegInf = DNaN"
| "double_sub DPosInf b = DPosInf"
| "double_sub DNegInf b = DNegInf"
| "double_sub a DPosInf = DNegInf"
| "double_sub a DNegInf = DPosInf"

fun double_div :: "double \<Rightarrow> double \<Rightarrow> error + double" where
  "double_div a (DFin y) =
     (if y = 0 then Inl (ZeroDivisionError ''float division by zero'')
      else (case a of
              DFin x \<Rightarrow> Inr (round_double (x / y))
            | DPosInf \<Rightarrow> Inr (if y < 0 then DNegInf else DPosInf)
            | DNegInf \<Rightarrow> Inr (if y < 0 then DPosInf else DNegInf)
            | DNaN \<Rightarrow> Inr DNaN))"
| "double_div DNaN b = Inr DNaN"
| "double_div a DNaN = Inr DNaN"
| "double_div (DFin x) b = Inr (DFin 0)"
| "double_div a b = Inr DNaN"

section \<open>Python values\<close>

record cost =
  cost_name :: string
  cost_value :: decimal

datatype pyval =
    PNone
  | PBool bool
  | PInt int
  | PFloat double
  | PStr string
  | PDecimal decimal
  | PCost cost

text \<open>Python's truth value of an object (\<open>not value\<close> is its negation).\<close>

fun truthy :: "pyval \<Rightarrow> bool" where
  "truthy PNone = False"
| "truthy (PBool b) = b"
| "truthy (PInt i) = (i \<noteq> 0)"
| "truthy (PFloat f) = (f \<noteq> DFin 0)"
| "truthy (PStr s) = (s \<noteq> [])"
| "truthy (PDecimal d) = decimal_truthy d"
| "truthy (PCost c) = True"

text \<open>\<open>isinstance(v, str)\<close>.\<close>

fun isinstance_str :: "pyval \<Rightarrow> bool" where
  "isinstance_str (PStr s) = True"
| "isinstance_str v = False"

text \<open>\<open>isinstance(v, int)\<close>: in Python \<open>bool\<close> is a subclass of \<open>int\<close>.\<close>

fun isinstance_int :: "pyval \<Rightarrow> bool" where
  "isinstance_int (PInt i) = True"
| "isinstance_int (PBool b) = True"
| "isinstance_int v = False"

text \<open>The integer an instance of \<open>int\<close> stands for (\<open>True\<close> is 1, \<open>False\<close> is 0).\<close>

fun int_of_pyval :: "pyval \<Rightarrow> int" where
  "int_of_pyval (PInt i) = i"
| "int_of_pyval (PBool b) = (if b then 1 else 0)"
| "int_of_pyval v = 0"

text \<open>\<open>isinstance(v, (str, float, Decimal, int))\<close>.\<close>

fun isinstance_number :: "pyval \<Rightarrow> bool" where
  "isinstance_number (PStr s) = True"
| "isinstance_number (PFloat f) = True"
| "isinstance_number (PDecimal d) = True"
| "isinstance_number (PInt i) = True"
| "isinstance_number (PBool b) = True"
| "isinstance_number v = False"

text \<open>\<open>isinstance(v, Cost)\<close>.\<close>

fun isinstance_Cost :: "pyval \<Rightarrow> bool" where
  "isinstance_Cost (PCost c) = True"
| "isinstance_Cost v = False"

text \<open>\<open>isinstance(v, Decimal)\<close>.\<close>

fun isinstance_Decimal :: "pyval \<Rightarrow> bool" where
  "isinstance_Decimal (PDecimal d) = True"
| "isinstance_Decimal v = False"

text \<open>
  The constructor \<open>Decimal(v)\<close> of the standard library, which is exact. Its parser of
  numeric strings is not code of this package: it is the parameter \<open>parse\<close>, which
  returns \<open>None\<close> for a string that \<open>Decimal\<close> rejects.
\<close>

fun Decimal :: "(string \<Rightarrow> decimal option) \<Rightarrow> pyval \<Rightarrow> error + decimal" where
  "Decimal parse (PStr s) =
     (case parse s of
        None \<Rightarrow> Inl (InvalidOperation ''ConversionSyntax'')
      | Some d \<Rightarrow> Inr d)"
| "Decimal parse (PInt i) = Inr (Fin (of_int i))"
| "Decimal parse (PBool b) = Inr (Fin (if b then 1 else 0))"
| "Decimal parse (PFloat f) = Inr (decimal_of_double f)"
| "Decimal parse (PDecimal d) = Inr d"
| "Decimal parse v = Inl (TypeError ''conversion to Decimal is not supported'')"

section \<open>Cost\<close>

text \<open>
  The setter of \<open>Cost.name\<close>: the name is stored only when it is a non-empty string.
\<close>

definition Cost_name_setter :: "pyval \<Rightarrow> error + string" where
  "Cost_name_setter v =
     (if \<not> truthy v \<or> \<not> isinstance_str v then Inl (AttributeError ''Invalid cost name:'')
      else (case v of PStr s \<Rightarrow> Inr s | _ \<Rightarrow> Inl (AttributeError ''Invalid cost name:'')))"

text \<open>
  The body of the setter of \<open>Cost.value\<close>. It returns what the setter stored in the
  private attribute (\<open>None\<close> when it raised before the assignment) together with the
  exception it raised, if any. The source assigns the converted value first and compares
  it with zero afterwards.
\<close>

definition Cost_value_setter ::
  "(string \<Rightarrow> decimal option) \<Rightarrow> pyval \<Rightarrow> decimal option \<times> error option" where
  "Cost_value_setter parse v =
     (if \<not> isinstance_number v then (None, Some (AttributeError ''Invalid cost:''))
      else (case Decimal parse v of
              Inl e \<Rightarrow> (None, Some e)
            | Inr d \<Rightarrow>
                (Some d,
                 (case decimal_less d (Fin 0) of
                    Inl e \<Rightarrow> Some e
                  | Inr lt \<Rightarrow>
                      if lt then Some (ValueError ''The cost can not be negative:'')
                      else None))))"

text \<open>
  Assigning \<open>c.value = v\<close> on an existing cost: the object after the statement, and the
  exception the statement raised, if any.
\<close>

definition Cost_set_value ::
  "(string \<Rightarrow> decimal option) \<Rightarrow> pyval \<Rightarrow> cost \<Rightarrow> error option \<times> cost" where
  "Cost_set_value parse v c =
     (case Cost_value_setter parse v of
        (stored, raised) \<Rightarrow>
          (raised, (case stored of None \<Rightarrow> c | Some d \<Rightarrow> c\<lparr>cost_value := d\<rparr>)))"

text \<open>
  \<open>Cost.__init__(name, value)\<close>: the name goes through its setter, then
  \<open>Decimal(value)\<close> is evaluated, then the result goes through the value setter. A
  constructor that raises gives the caller no object.
\<close>

definition Cost_init ::
  "(string \<Rightarrow> decimal option) \<Rightarrow> pyval \<Rightarrow> pyval \<Rightarrow> error + cost" where
  "Cost_init parse n v =
     (case Cost_name_setter n of
        Inl e \<Rightarrow> Inl e
      | Inr s \<Rightarrow>
          (case Decimal parse v of
             Inl e \<Rightarrow> Inl e
           | Inr d \<Rightarrow>
               (case Cost_value_setter parse (PDecimal d) of
                  (_, Some e) \<Rightarrow> Inl e
                | (Some d', None) \<Rightarrow> Inr \<lparr>cost_name = s, cost_value = d'\<rparr>
                | (None, None) \<Rightarrow> Inl (AttributeError ''Invalid cost:''))))"

text \<open>
  The call \<open>Cost(*args)\<close> with positional arguments: the constructor has two required
  parameters and no default for either.
\<close>

fun Cost_call :: "(string \<Rightarrow> decimal option) \<Rightarrow> pyval list \<Rightarrow> error + cost" where
  "Cost_call parse [] =
     Inl (TypeError ''__init__() missing 2 required positional arguments: name and value'')"
| "Cost_call parse [n] =
     Inl (TypeError ''__init__() missing 1 required positional argument: value'')"
| "Cost_call parse [n, v] = Cost_init parse n v"
| "Cost_call parse args =
     Inl (TypeError ''__init__() takes 3 positional arguments but more were given'')"

section \<open>Costs\<close>

text \<open>
  The collection holds a dictionary from cost names to costs. A Python dictionary keeps
  its keys in insertion order, and assigning to a key that is present keeps the key's
  place: the dictionary is an association list whose keys are distinct.
\<close>

type_synonym costs = "(string \<times> cost) list"

definition Costs_init :: costs where
  "Costs_init = []"

fun dict_set :: "string \<Rightarrow> cost \<Rightarrow> costs \<Rightarrow> costs" where
  "dict_set k c [] = [(k, c)]"
| "dict_set k c (p # ps) = (if fst p = k then (k, c) # ps else p # dict_set k c ps)"

fun dict_get :: "costs \<Rightarrow> pyval \<Rightarrow> cost \<Rightarrow> cost" where
  "dict_get cs (PStr k) dflt = (case map_of cs k of None \<Rightarrow> dflt | Some c \<Rightarrow> c)"
| "dict_get cs v dflt = dflt"

definition keys_distinct :: "costs \<Rightarrow> bool" where
  "keys_distinct cs = distinct (map fst cs)"

text \<open>\<open>Costs.add(cost)\<close>.\<close>

fun Costs_add :: "pyval \<Rightarrow> costs \<Rightarrow> error + costs" where
  "Costs_add (PCost c) cs = Inr (dict_set (cost_name c) c cs)"
| "Costs_add v cs = Inl (AttributeError ''Expecting cost, got::'')"

text \<open>
  \<open>Costs.get(name)\<close>: Python evaluates the arguments of \<open>dict.get\<close>, and so the
  default \<open>Cost(name)\<close>, before the lookup.
\<close>

definition Costs_get :: "(string \<Rightarrow> decimal option) \<Rightarrow> costs \<Rightarrow> pyval \<Rightarrow> error + cost" where
  "Costs_get parse cs n =
     (case Cost_call parse [n] of
        Inl e \<Rightarrow> Inl e
      | Inr dflt \<Rightarrow> Inr (dict_get cs n dflt))"

text \<open>
  \<open>Costs.total\<close>: the built-in \<open>sum\<close> over the values of the dictionary, in the order
  of its keys.
\<close>

definition Costs_total :: "costs \<Rightarrow> error + decimal" where
  "Costs_total cs = py_sum (map (\<lambda>p. cost_value (snd p)) cs)"

text \<open>
  Attribute lookup on a \<open>Costs\<close> instance. The class defines the methods
  \<open>__init__\<close>, \<open>__repr__\<close>, \<open>add\<close> and \<open>get\<close> and the property \<open>total\<close>, and its
  constructor sets the one (name-mangled) instance attribute \<open>_Costs__costs\<close>.
\<close>

datatype attr = Method string | Dict costs | Number decimal

definition Costs_getattr :: "costs \<Rightarrow> string \<Rightarrow> error + attr" where
  "Costs_getattr cs a =
     (if a = ''_Costs__costs'' then Inr (Dict cs)
      else if a = ''total''
        then (case Costs_total cs of Inl e \<Rightarrow> Inl e | Inr d \<Rightarrow> Inr (Number d))
      else if a \<in> set [''__init__'', ''__repr__'', ''add'', ''get''] then Inr (Method a)
      else Inl (AttributeError (''Costs object has no attribute '' @ a)))"

text \<open>
  \<open>Costs.__repr__\<close>: the f-string reads \<open>self.name\<close>, then \<open>self.address\<close>, and
  formats them.
\<close>

definition Costs_repr :: "costs \<Rightarrow> error + (attr \<times> attr)" where
  "Costs_repr cs =
     (case Costs_getattr cs ''name'' of
        Inl e \<Rightarrow> Inl e
      | Inr n \<Rightarrow>
          (case Costs_getattr cs ''address'' of
             Inl e \<Rightarrow> Inl e
           | Inr a \<Rightarrow> Inr (n, a)))"

section \<open>Product\<close>

text \<open>
  The base class \<open>Product\<close> and its two subclasses differ in the cost collection that
  backs the total variable cost: a \<open>ProducedProduct\<close> has production costs, a
  \<open>PurchasedProduct\<close> has purchase costs, and the base class has none.
\<close>

datatype variant = Product | ProducedProduct costs | PurchasedProduct costs

record product =
  product_name :: string
  inventory :: decimal
  demand :: decimal
  lead_time :: decimal
  price :: decimal
  storage_costs :: costs
  kind :: variant

definition total_storage_cost :: "product \<Rightarrow> error + decimal" where
  "total_storage_cost p = Costs_total (storage_costs p)"

fun variable_cost_of :: "variant \<Rightarrow> error + decimal" where
  "variable_cost_of Product = Inl (NotImplementedError ''Method not overrided!'')"
| "variable_cost_of (ProducedProduct production_costs) = Costs_total production_costs"
| "variable_cost_of (PurchasedProduct purchase_costs) = Costs_total purchase_costs"

definition total_variable_cost :: "product \<Rightarrow> error + decimal" where
  "total_variable_cost p = variable_cost_of (kind p)"

text \<open>
  \<open>Product.optimum_inventory_level\<close>: the three guards test the truth value of the
  demand, of the total storage cost and of the total variable cost, in this order. The
  result is \<open>Decimal(math.sqrt(2 * demand * total_variable_cost / total_storage_cost))\<close>:
  two multiplications and a division in the decimal context, the square root on a
  double.
\<close>

definition optimum_inventory_level :: "product \<Rightarrow> error + decimal" where
  "optimum_inventory_level p =
     (if \<not> decimal_truthy (demand p) then Inl (RuntimeError ''The demand must be positive.'')
      else (case total_storage_cost p of
        Inl e \<Rightarrow> Inl e
      | Inr h \<Rightarrow>
          if \<not> decimal_truthy h
            then Inl (RuntimeError ''The total storage cost must be positive.'')
          else (case total_variable_cost p of
            Inl e \<Rightarrow> Inl e
          | Inr k \<Rightarrow>
              if \<not> decimal_truthy k
                then Inl (RuntimeError ''The total variable cost must be positive.'')
              else (case decimal_mul (Fin 2) (demand p) of
                Inl e \<Rightarrow> Inl e
              | Inr a \<Rightarrow>
                  (case decimal_mul a k of
                     Inl e \<Rightarrow> Inl e
                   | Inr b \<Rightarrow>
                       (case decimal_div b h of
                          Inl e \<Rightarrow> Inl e
                        | Inr q \<Rightarrow>
                            (case math_sqrt q of
                               Inl e \<Rightarrow> Inl e
                             | Inr r \<Rightarrow> Inr (decimal_of_double r))))))))"

section \<open>Simulator\<close>

record simulator =
  sim_times :: int
  sim_title :: string
  sim_results :: "decimal list"

text \<open>
  \<open>Simulator.__init__(times, title)\<close>. An accepted \<open>times\<close> is kept as the integer it
  stands for.
\<close>

definition Simulator_init :: "pyval \<Rightarrow> pyval \<Rightarrow> error + simulator" where
  "Simulator_init n t =
     (if \<not> isinstance_int n \<or> int_of_pyval n < 0
        then Inl (AttributeError ''Invalid simulator run times:'')
      else if \<not> truthy t \<or> \<not> isinstance_str t
        then Inl (TypeError ''Invalid simulator title:'')
      else (case t of
              PStr s \<Rightarrow> Inr \<lparr>sim_times = int_of_pyval n, sim_title = s, sim_results = []\<rparr>
            | _ \<Rightarrow> Inl (TypeError ''Invalid simulator title:'')))"

text \<open>
  The method \<open>rvs\<close> of SciPy's frozen distribution \<open>truncnorm(a, b, loc, scale)\<close>,
  which is not code of this package. It raises \<open>ValueError\<close> unless \<open>a < b\<close> and the
  scale is not negative; the value it draws otherwise is left open: the parameter
  \<open>draw\<close> stands for the outcome of the random draw.
\<close>

definition truncnorm_rvs ::
  "(double \<Rightarrow> double \<Rightarrow> double \<Rightarrow> double \<Rightarrow> double) \<Rightarrow>
   double \<Rightarrow> double \<Rightarrow> double \<Rightarrow> double \<Rightarrow> error + double" where
  "truncnorm_rvs draw a b loc scale =
     (if double_less a b \<and> (double_less (DFin 0) scale \<or> scale = DFin 0)
      then Inr (draw a b loc scale)
      else Inl (ValueError ''Domain error in arguments.''))"

text \<open>
  \<open>Simulator.normal(mean, std, upper, lower)\<close>: the two comparisons, the standardised
  bounds, the draw, and the conversion of the drawn float to a decimal.
\<close>

definition normal ::
  "(double \<Rightarrow> double \<Rightarrow> double \<Rightarrow> double \<Rightarrow> double) \<Rightarrow>
   double \<Rightarrow> double \<Rightarrow> double \<Rightarrow> double \<Rightarrow> error + decimal" where
  "normal draw mean std upper lower =
     (if double_less upper mean then Inl (ValueError ''Mean is too high:'')
      else if double_less mean lower then Inl (ValueError ''Mean is too low:'')
      else (case double_div (double_sub lower mean) std of
              Inl e \<Rightarrow> Inl e
            | Inr a \<Rightarrow>
                (case double_div (double_sub upper mean) std of
                   Inl e \<Rightarrow> Inl e
                 | Inr b \<Rightarrow>
                     (case truncnorm_rvs draw a b mean std of
                        Inl e \<Rightarrow> Inl e
                      | Inr v \<Rightarrow> Inr (decimal_of_double v)))))"

text \<open>
  The loop of \<open>decorated\<close>. The caller's function takes no argument and may return a
  different value, or raise, on each call: \<open>fn k\<close> is the outcome of its call in
  iteration \<open>k\<close>. \<open>trials fn k n s\<close> runs the \<open>n\<close> iterations that start at number
  \<open>k\<close>; it returns the exception that ended the loop, if any, and the simulator.
\<close>

fun trials ::
  "(nat \<Rightarrow> error + pyval) \<Rightarrow> nat \<Rightarrow> nat \<Rightarrow> simulator \<Rightarrow> error option \<times> simulator" where
  "trials fn k 0 s = (None, s)"
| "trials fn k (Suc n) s =
     (case fn k of
        Inl e \<Rightarrow> (Some e, s)
      | Inr (PDecimal d) \<Rightarrow> trials fn (Suc k) n (s\<lparr>sim_results := sim_results s @ [d]\<rparr>)
      | Inr v \<Rightarrow> (Some (TypeError ''Expecting a Decimal, got:''), s))"

definition decorated :: "(nat \<Rightarrow> error + pyval) \<Rightarrow> simulator \<Rightarrow> error option \<times> simulator" where
  "decorated fn s = trials fn 0 (nat (sim_times s)) s"

text \<open>
  \<open>average\<close>, \<open>maximum\<close> and \<open>minimum\<close>: the sum and the division are decimal
  operations, and all three can raise on special values.
\<close>

definition average :: "simulator \<Rightarrow> error + decimal" where
  "average s =
     (if sim_results s \<noteq> []
      then (case py_sum (sim_results s) of
              Inl e \<Rightarrow> Inl e
            | Inr t \<Rightarrow> decimal_div t (Fin (real (length (sim_results s)))))
      else Inr (Fin 0))"

definition maximum :: "simulator \<Rightarrow> error + decimal" where
  "maximum s = (case sim_results s of [] \<Rightarrow> Inr (Fin 0) | d # ds \<Rightarrow> max_from d ds)"

definition minimum :: "simulator \<Rightarrow> error + decimal" where
  "minimum s = (case sim_results s of [] \<Rightarrow> Inr (Fin 0) | d # ds \<Rightarrow> min_from d ds)"

text \<open>What \<open>summary\<close> prints, one value for each call of \<open>print\<close>.\<close>

datatype line =
    Rule
  | Title string
  | Simulated int
  | Average decimal
  | Maximum decimal
  | Minimum decimal

text \<open>
  \<open>summary\<close>: each statistic is computed when its line is printed, so an exception
  leaves the lines before it printed.
\<close>

definition summary :: "simulator \<Rightarrow> line list \<Rightarrow> error option \<times> line list" where
  "summary s out =
     (let head = out @ [Rule, Title (sim_title s), Simulated (sim_times s)]
      in case average s of
           Inl e \<Rightarrow> (Some e, head)
         | Inr a \<Rightarrow>
             (case maximum s of
                Inl e \<Rightarrow> (Some e, head @ [Average a])
              | Inr hi \<Rightarrow>
                  (case minimum s of
                     Inl e \<Rightarrow> (Some e, head @ [Average a, Maximum hi])
                   | Inr lo \<Rightarrow>
                       (None, head @ [Average a, Maximum hi, Minimum lo, Rule]))))"

text \<open>
  \<open>Simulator.__exit__\<close>, given the exception that escaped the body of the \<open>with\<close>
  statement (\<open>None\<close> when the body completed) and the output printed so far. The
  statement \<open>raise RuntimeError(...) from exc_type\<close> calls the class of the exception
  without arguments to make the cause; when the class needs arguments, that call raises
  \<open>TypeError\<close> in place of the \<open>RuntimeError\<close>.
\<close>

definition Simulator_exit ::
  "simulator \<Rightarrow> error option \<Rightarrow> line list \<Rightarrow> error option \<times> line list" where
  "Simulator_exit s exc out =
     (case exc of
        None \<Rightarrow> summary s out
      | Some e \<Rightarrow>
          if callable_without_arguments e
            then (Some (RuntimeErrorFrom ''Failed to run simulator!'' e), out)
          else (Some (TypeError ''exception class called without its required arguments''), out))"

text \<open>
  A run, as every caller in the package writes it: the simulator is the context manager
  of a \<open>with\<close> statement whose body applies the decorator to the trial function.
\<close>

definition run ::
  "(nat \<Rightarrow> error + pyval) \<Rightarrow> simulator \<Rightarrow> line list \<Rightarrow> error option \<times> simulator \<times> line list" where
  "run fn s out =
     (case decorated fn s of
        (exc, s') \<Rightarrow> (case Simulator_exit s' exc out of (r, out') \<Rightarrow> (r, s', out')))"

section \<open>Predicates of the statements\<close>

text \<open>A decimal that is greater than zero.\<close>

definition positive :: "decimal \<Rightarrow> bool" where
  "positive d = (case d of Fin x \<Rightarrow> 0 < x | Infinity \<Rightarrow> True | _ \<Rightarrow> False)"



text \<open>
  The ranges in which the two formats round with their full precision, with a margin of
  a factor two on either side: the exponent range of the decimal context, and the range
  of the normal doubles.
\<close>

definition in_decimal_range :: "real \<Rightarrow> bool" where
  "in_decimal_range x = (2 * 10 powi Emin \<le> x \<and> 2 * x \<le> 10 powi Emax)"

definition in_double_range :: "real \<Rightarrow> bool" where
  "in_double_range x = (2 powi (- 1021) \<le> x \<and> x \<le> 2 powi 1022)"

text \<open>
  The relative error of one rounding to the nearest double, and a value \<open>y\<close> that is
  within \<open>n\<close> such roundings of \<open>x\<close>.
\<close>

definition unit_roundoff :: real where
  "unit_roundoff = 2 powi (- 53)"

definition near :: "nat \<Rightarrow> real \<Rightarrow> real \<Rightarrow> bool" where
  "near n y x = ((1 - unit_roundoff) ^ n * x \<le> y \<and> y \<le> (1 + unit_roundoff) ^ n * x)"

section \<open>Rounding\<close>

lemma round_half_even_error: "\<bar>of_int (round_half_even y) - y\<bar> \<le> 1 / 2"
  unfolding round_half_even_def Let_def by (auto; linarith)

lemma round_half_even_of_int [simp]: "round_half_even (of_int n) = n"
  by (simp add: round_half_even_def)

lemma round_half_even_floor:
  shows "\<lfloor>y\<rfloor> \<le> round_half_even y" and "round_half_even y \<le> \<lfloor>y\<rfloor> + 1"
  unfolding round_half_even_def Let_def by auto

lemma round_half_even_ge: "of_int n \<le> y \<Longrightarrow> n \<le> round_half_even y"
proof -
  assume "of_int n \<le> y"
  then have "n \<le> \<lfloor>y\<rfloor>" by (simp add: le_floor_iff)
  with round_half_even_floor(1) [of y] show ?thesis by linarith
qed

lemma round_half_even_le: "y \<le> of_int n \<Longrightarrow> round_half_even y \<le> n"
proof (cases "y = of_int n")
  case True
  then show ?thesis by simp
next
  case False
  assume "y \<le> of_int n"
  with False have "y < of_int n" by simp
  then have "\<lfloor>y\<rfloor> < n" by (simp add: floor_less_iff)
  with round_half_even_floor(2) [of y] show ?thesis by linarith
qed

lemma exponent_bounds:
  assumes "1 < b" "x \<noteq> 0"
  shows "real b powi exponent b x \<le> \<bar>x\<bar>" and "\<bar>x\<bar> < real b powi (exponent b x + 1)"
proof -
  have pos: "0 < \<bar>x\<bar>" and b: "1 < real b" using assms by simp_all
  have "real b powr of_int (exponent b x) \<le> \<bar>x\<bar> \<and> \<bar>x\<bar> < real b powr (of_int (exponent b x) + 1)"
    using floor_log_eq_powr_iff [OF pos b, of "exponent b x"] by (simp add: exponent_def)
  moreover have "real b powr of_int k = real b powi k" for k
    using b by (simp add: powr_real_of_int power_int_def power_inverse)
  moreover have "real b powr (of_int k + 1) = real b powi (k + 1)" for k
    using \<open>\<And>k. real b powr of_int k = real b powi k\<close> [of "k + 1"] by simp
  ultimately show "real b powi exponent b x \<le> \<bar>x\<bar>" and "\<bar>x\<bar> < real b powi (exponent b x + 1)"
    by simp_all
qed

lemma exponent_eqI:
  assumes "1 < b" "real b powi k \<le> \<bar>x\<bar>" "\<bar>x\<bar> < real b powi (k + 1)"
  shows "exponent b x = k"
proof -
  have b: "1 < real b" using assms by simp
  have "0 < real b powi k" using b by simp
  with assms(2) have pos: "0 < \<bar>x\<bar>" by linarith
  have c: "real b powr of_int j = real b powi j" for j
    using b by (simp add: powr_real_of_int power_int_def power_inverse)
  have "real b powr (of_int k + 1) = real b powi (k + 1)"
    using c [of "k + 1"] by simp
  with assms(2,3) c [of k] show ?thesis
    unfolding exponent_def using floor_log_eq_powr_iff [OF pos b, of k] by simp
qed


lemma powi_diff_of_int:
  assumes "1 < b" "q \<le> k"
  shows "real b powi k / real b powi q = of_int (int b ^ nat (k - q))"
proof -
  have "real b \<noteq> 0" using assms by simp
  then have "real b powi k / real b powi q = real b powi (k - q)"
    by (simp add: power_int_diff)
  also have "\<dots> = real b ^ nat (k - q)"
    using assms by (simp add: power_int_def)
  finally show ?thesis by simp
qed

lemma round_at_error:
  assumes "1 < b"
  shows "\<bar>round_at b q x - x\<bar> \<le> 1 / 2 * real b powi q"
proof -
  let ?Q = "real b powi q"
  have Q: "0 < ?Q" using assms by simp
  have "round_at b q x - x = (of_int (round_half_even (x / ?Q)) - x / ?Q) * ?Q"
    using Q assms by (simp add: round_at_def field_simps)
  then have "\<bar>round_at b q x - x\<bar> = \<bar>of_int (round_half_even (x / ?Q)) - x / ?Q\<bar> * ?Q"
    using Q by (simp add: abs_mult)
  also have "\<dots> \<le> 1 / 2 * ?Q"
    using round_half_even_error [of "x / ?Q"] Q by (intro mult_right_mono) simp_all
  finally show ?thesis .
qed

lemma round_at_exact:
  assumes "1 < b" "q \<le> k"
  shows "round_at b q (of_int m * real b powi k) = of_int m * real b powi k"
proof -
  let ?Q = "real b powi q"
  have Q: "0 < ?Q" using assms by simp
  have "of_int m * real b powi k / ?Q = of_int m * (real b powi k / ?Q)"
    by simp
  also have "\<dots> = of_int (m * int b ^ nat (k - q))"
    by (simp only: powi_diff_of_int [OF assms] of_int_mult)
  finally have "round_half_even (of_int m * real b powi k / ?Q) = m * int b ^ nat (k - q)"
    by (simp only: round_half_even_of_int)
  then have "round_at b q (of_int m * real b powi k) =
      of_int m * of_int (int b ^ nat (k - q)) * ?Q"
    by (simp add: round_at_def)
  also have "\<dots> = of_int m * (real b powi k / ?Q) * ?Q"
    by (simp only: powi_diff_of_int [OF assms])
  also have "\<dots> = of_int m * real b powi k"
    using Q assms(1) by simp
  finally show ?thesis .
qed

lemma round_at_ge:
  assumes "1 < b" "q \<le> k" "of_int m * real b powi k \<le> x"
  shows "of_int m * real b powi k \<le> round_at b q x"
proof -
  let ?Q = "real b powi q"
  have Q: "0 < ?Q" using assms by simp
  have "of_int (m * int b ^ nat (k - q)) = of_int m * (real b powi k / ?Q)"
    by (simp only: powi_diff_of_int [OF assms(1,2)] of_int_mult)
  also have "\<dots> = of_int m * real b powi k / ?Q"
    by simp
  also have "\<dots> \<le> x / ?Q"
    using assms(3) Q by (simp add: divide_right_mono)
  finally have "m * int b ^ nat (k - q) \<le> round_half_even (x / ?Q)"
    by (rule round_half_even_ge)
  then have "real_of_int (m * int b ^ nat (k - q)) \<le> of_int (round_half_even (x / ?Q))"
    by (simp only: of_int_le_iff)
  then have le: "real_of_int (m * int b ^ nat (k - q)) * ?Q \<le> round_at b q x"
    unfolding round_at_def using Q by (intro mult_right_mono) simp_all
  have eq: "real_of_int (m * int b ^ nat (k - q)) * ?Q = of_int m * real b powi k"
  proof -
    have "real_of_int (m * int b ^ nat (k - q)) * ?Q = of_int m * (real b powi k / ?Q) * ?Q"
      by (simp only: powi_diff_of_int [OF assms(1,2)] of_int_mult)
    also have "\<dots> = of_int m * real b powi k" using Q assms(1) by simp
    finally show ?thesis .
  qed
  from le show ?thesis by (simp only: eq)
qed

lemma round_at_le:
  assumes "1 < b" "q \<le> k" "x \<le> of_int m * real b powi k"
  shows "round_at b q x \<le> of_int m * real b powi k"
proof -
  let ?Q = "real b powi q"
  have Q: "0 < ?Q" using assms by simp
  have "x / ?Q \<le> of_int m * real b powi k / ?Q"
    using assms(3) Q by (simp add: divide_right_mono)
  also have "\<dots> = of_int m * (real b powi k / ?Q)"
    by simp
  also have "\<dots> = of_int (m * int b ^ nat (k - q))"
    by (simp only: powi_diff_of_int [OF assms(1,2)] of_int_mult)
  finally have "round_half_even (x / ?Q) \<le> m * int b ^ nat (k - q)"
    by (rule round_half_even_le)
  then have "real_of_int (round_half_even (x / ?Q)) \<le> of_int (m * int b ^ nat (k - q))"
    by (simp only: of_int_le_iff)
  then have le: "round_at b q x \<le> real_of_int (m * int b ^ nat (k - q)) * ?Q"
    unfolding round_at_def using Q by (intro mult_right_mono) simp_all
  have eq: "real_of_int (m * int b ^ nat (k - q)) * ?Q = of_int m * real b powi k"
  proof -
    have "real_of_int (m * int b ^ nat (k - q)) * ?Q = of_int m * (real b powi k / ?Q) * ?Q"
      by (simp only: powi_diff_of_int [OF assms(1,2)] of_int_mult)
    also have "\<dots> = of_int m * real b powi k" using Q assms(1) by simp
    finally show ?thesis .
  qed
  from le show ?thesis by (simp only: eq)
qed

text \<open>The exponent of a number with at most p digits in front of the quantum.\<close>

lemma exponent_of_digits:
  assumes "1 < b" "m \<noteq> 0" "\<bar>m\<bar> < int b ^ p"
  shows "exponent b (of_int m * real b powi k) < int p + k"
proof -
  let ?x = "of_int m * real b powi k"
  have B: "1 < real b" using assms by simp
  have pk: "0 < real b powi k" using assms by simp
  have x0: "?x \<noteq> 0" using assms pk by simp
  have "real_of_int \<bar>m\<bar> < real_of_int (int b ^ p)"
    using assms(3) by (simp only: of_int_less_iff)
  then have "\<bar>real_of_int m\<bar> < real b ^ p" by simp
  then have "\<bar>?x\<bar> < real b ^ p * real b powi k"
    using pk by (simp add: abs_mult)
  also have "\<dots> = real b powi (int p + k)"
    using B by (simp add: power_int_add)
  finally have up: "\<bar>?x\<bar> < real b powi (int p + k)" .
  have "real b powi exponent b ?x \<le> \<bar>?x\<bar>"
    using exponent_bounds(1) [OF assms(1) x0] .
  with up have lt: "real b powi exponent b ?x < real b powi (int p + k)" by linarith
  show ?thesis
  proof (rule ccontr)
    assume "\<not> exponent b ?x < int p + k"
    then have "int p + k \<le> exponent b ?x" by simp
    then have "real b powi (int p + k) \<le> real b powi exponent b ?x"
      using B by (intro power_int_increasing) simp_all
    with lt show False by simp
  qed
qed

subsection \<open>The decimal context\<close>

lemma context_bounds:
  shows "Etiny = Emin - 27" and "Emin \<le> 0" and "0 \<le> Emax" and "Etiny \<le> 0"
  by (simp_all add: Etiny_def Emin_def Emax_def context_prec_def)

lemma context_round_exact:
  assumes "m \<noteq> 0" "\<bar>m\<bar> < 10 ^ 28" "Etiny \<le> k" "k + 28 \<le> Emax + 1"
  shows "context_round (of_int m * 10 powi k) = Inr (Fin (of_int m * 10 powi k))"
proof -
  let ?x = "real_of_int m * 10 powi k"
  let ?q = "max (exponent 10 ?x - (context_prec - 1)) Etiny"
  have x0: "?x \<noteq> 0" using assms(1) by simp
  have m: "\<bar>m\<bar> < int 10 ^ 28" using assms(2) by simp
  have "exponent 10 (of_int m * real 10 powi k) < int 28 + k"
    using assms(1) m by (intro exponent_of_digits) simp_all
  then have "exponent 10 ?x - 27 \<le> k" by simp
  with assms(3) have q: "?q \<le> k" by (simp add: context_prec_def)
  have r: "round_at 10 ?q ?x = ?x"
    using round_at_exact [of 10 ?q k m] q by simp
  have "\<bar>real_of_int m\<bar> < 10 ^ 28"
    using assms(2) by (metis of_int_abs of_int_less_iff of_int_numeral of_int_power)
  then have "\<bar>?x\<bar> < 10 ^ 28 * 10 powi k"
    by (simp add: abs_mult)
  also have "\<dots> = 10 powi (k + 28)"
    by (simp add: power_int_add)
  also have "\<dots> \<le> 10 powi (Emax + 1)"
    using assms(4) by (intro power_int_increasing) simp_all
  finally have "\<not> 10 powi (Emax + 1) \<le> \<bar>?x\<bar>" by simp
  with x0 r show ?thesis
    by (simp add: context_round_def Let_def)
qed

lemma context_round_int:
  assumes "\<bar>m\<bar> < 10 ^ 28"
  shows "context_round (of_int m) = Inr (Fin (of_int m))"
proof (cases "m = 0")
  case True
  then show ?thesis by (simp add: context_round_def)
next
  case False
  have "Etiny \<le> 0" and "(0::int) + 28 \<le> Emax + 1"
    by (simp_all add: Etiny_def Emin_def Emax_def context_prec_def)
  from context_round_exact [OF False assms this] show ?thesis by simp
qed


text \<open>
  Within the exponent range the context returns a value whose relative error is at most
  half a unit in the 28th digit.
\<close>

lemma context_round_error:
  assumes "10 powi Emin \<le> x" "x \<le> 10 powi Emax"
  shows "\<exists>r. context_round x = Inr (Fin r) \<and> \<bar>r - x\<bar> \<le> 1 / 2 * 10 powi (- 27) * x \<and>
           10 powi Emin \<le> r \<and> r \<le> 10 powi Emax"
proof -
  have pos: "0 < x"
    using assms(1) zero_less_power_int [of "10::real" Emin] by linarith
  then have x0: "x \<noteq> 0" and ax: "\<bar>x\<bar> = x" by simp_all
  let ?e = "exponent 10 x"
  have lo: "10 powi ?e \<le> x" and hi: "x < 10 powi (?e + 1)"
    using exponent_bounds [of 10 x] x0 ax by simp_all
  have "10 powi Emin < (10::real) powi (?e + 1)"
    using assms(1) hi by linarith
  then have "Emin < ?e + 1"
    by (metis not_less power_int_increasing one_le_numeral)
  then have e: "Emin \<le> ?e" by simp
  let ?q = "?e - 27"
  have q: "max (?e - (context_prec - 1)) Etiny = ?q"
    using e by (simp add: context_prec_def Etiny_def)
  let ?r = "round_at 10 ?q x"
  have err: "\<bar>?r - x\<bar> \<le> 1 / 2 * 10 powi ?q"
    using round_at_error [of 10 ?q x] by simp
  have "(10::real) powi ?q = 10 powi (- 27) * 10 powi ?e"
    by (simp add: power_int_diff power_int_minus field_simps)
  also have "\<dots> \<le> 10 powi (- 27) * x"
    using lo by (intro mult_left_mono) simp_all
  finally have rel: "\<bar>?r - x\<bar> \<le> 1 / 2 * 10 powi (- 27) * x"
    using err by simp
  have "real_of_int 1 * real 10 powi ?e \<le> round_at 10 ?q x"
    using lo by (intro round_at_ge) simp_all
  moreover have "(10::real) powi Emin \<le> 10 powi ?e"
    using e by (intro power_int_increasing) simp_all
  ultimately have rlo: "10 powi Emin \<le> ?r" by simp
  have "?e \<le> Emax"
  proof (rule ccontr)
    assume "\<not> ?e \<le> Emax"
    then have "Emax + 1 \<le> ?e" by simp
    then have "(10::real) powi (Emax + 1) \<le> 10 powi ?e"
      by (intro power_int_increasing) simp_all
    moreover have "(10::real) powi Emax < 10 powi (Emax + 1)"
      by (intro power_int_strict_increasing) simp_all
    ultimately show False using lo assms(2) by linarith
  qed
  then have "round_at 10 ?q x \<le> real_of_int 1 * real 10 powi Emax"
    using assms(2) by (intro round_at_le) simp_all
  then have rhi: "?r \<le> 10 powi Emax" by simp
  have "(10::real) powi Emax < 10 powi (Emax + 1)"
    by (intro power_int_strict_increasing) simp_all
  moreover have "0 < ?r"
    using rlo zero_less_power_int [of "10::real" Emin] by linarith
  ultimately have "\<not> 10 powi (Emax + 1) \<le> \<bar>?r\<bar>"
    using rhi by simp
  then have "context_round x = Inr (Fin ?r)"
    using x0 by (simp add: context_round_def Let_def q)
  with rel rlo rhi show ?thesis by blast
qed

subsection \<open>Doubles\<close>

lemma round_double_exact:
  assumes "m \<noteq> 0" "\<bar>m\<bar> < 2 ^ 53" "- 1074 \<le> k" "k + 53 \<le> 1024"
  shows "round_double (of_int m * 2 powi k) = DFin (of_int m * 2 powi k)"
proof -
  let ?x = "real_of_int m * 2 powi k"
  let ?q = "max (exponent 2 ?x - 52) (- 1074)"
  have x0: "?x \<noteq> 0" using assms(1) by simp
  have m: "\<bar>m\<bar> < int 2 ^ 53" using assms(2) by simp
  have "exponent 2 (of_int m * real 2 powi k) < int 53 + k"
    using assms(1) m by (intro exponent_of_digits) simp_all
  then have "exponent 2 ?x - 52 \<le> k" by simp
  with assms(3) have q: "?q \<le> k" by simp
  have r: "round_at 2 ?q ?x = ?x"
    using round_at_exact [of 2 ?q k m] q by simp
  have "\<bar>real_of_int m\<bar> < 2 ^ 53"
    using assms(2) by (metis of_int_abs of_int_less_iff of_int_numeral of_int_power)
  then have "\<bar>?x\<bar> < 2 ^ 53 * 2 powi k"
    by (simp add: abs_mult)
  also have "\<dots> = 2 powi (k + 53)"
    by (simp add: power_int_add)
  also have "\<dots> \<le> 2 powi 1024"
    using assms(4) by (intro power_int_increasing) simp_all
  finally have "\<not> 2 powi 1024 \<le> \<bar>?x\<bar>" by simp
  with x0 r show ?thesis
    by (simp add: round_double_def Let_def del: power_int_numeral)
qed

lemma round_double_int:
  assumes "\<bar>m\<bar> < 2 ^ 53"
  shows "round_double (of_int m) = DFin (of_int m)"
proof (cases "m = 0")
  case True
  then show ?thesis by (simp add: round_double_def)
next
  case False
  from round_double_exact [OF False assms, of 0] show ?thesis by simp
qed

lemma round_double_overflow:
  assumes "2 powi 1024 \<le> x"
  shows "round_double x = DPosInf"
proof -
  have pos: "0 < x"
    using assms zero_less_power_int [of "2::real" 1024] by linarith
  then have x0: "x \<noteq> 0" and ax: "\<bar>x\<bar> = x" by simp_all
  let ?e = "exponent 2 x"
  have lo: "2 powi ?e \<le> x" and hi: "x < 2 powi (?e + 1)"
    using exponent_bounds [of 2 x] x0 ax by simp_all
  have "2 powi 1024 < (2::real) powi (?e + 1)"
    using assms hi by linarith
  then have "1024 < ?e + 1"
    by (metis not_less power_int_increasing one_le_numeral)
  then have e: "1024 \<le> ?e" by simp
  let ?q = "max (?e - 52) (- 1074)"
  have "real_of_int 1 * real 2 powi ?e \<le> round_at 2 ?q x"
    using e lo by (intro round_at_ge) simp_all
  then have "2 powi ?e \<le> round_at 2 ?q x" by simp
  moreover have "(2::real) powi 1024 \<le> 2 powi ?e"
    using e by (intro power_int_increasing) simp_all
  ultimately have "2 powi 1024 \<le> \<bar>round_at 2 ?q x\<bar>" by linarith
  with x0 pos show ?thesis
    by (simp add: round_double_def Let_def del: power_int_numeral)
qed

text \<open>
  In the range of the normal doubles the relative error of the nearest double is at
  most 2 to the power -53.
\<close>

lemma round_double_error:
  assumes "2 powi (- 1022) \<le> x" "x \<le> 2 powi 1023"
  shows "\<exists>r. round_double x = DFin r \<and> \<bar>r - x\<bar> \<le> 2 powi (- 53) * x \<and>
           2 powi (- 1022) \<le> r \<and> r \<le> 2 powi 1023"
proof -
  have pos: "0 < x"
    using assms(1) zero_less_power_int [of "2::real" "- 1022"] by linarith
  then have x0: "x \<noteq> 0" and ax: "\<bar>x\<bar> = x" by simp_all
  let ?e = "exponent 2 x"
  have lo: "2 powi ?e \<le> x" and hi: "x < 2 powi (?e + 1)"
    using exponent_bounds [of 2 x] x0 ax by simp_all
  have "2 powi (- 1022) < (2::real) powi (?e + 1)"
    using assms(1) hi by linarith
  then have "- 1022 < ?e + 1"
    by (metis not_less power_int_increasing one_le_numeral)
  then have e: "- 1022 \<le> ?e" by simp
  let ?q = "?e - 52"
  have q: "max (?e - 52) (- 1074) = ?q"
    using e by simp
  let ?r = "round_at 2 ?q x"
  have err: "\<bar>?r - x\<bar> \<le> 1 / 2 * 2 powi ?q"
    using round_at_error [of 2 ?q x] by simp
  have "1 / 2 * (2::real) powi ?q = 2 powi (- 53) * 2 powi ?e"
    by (simp add: power_int_diff power_int_minus field_simps)
  also have "\<dots> \<le> 2 powi (- 53) * x"
    using lo by (intro mult_left_mono) simp_all
  finally have rel: "\<bar>?r - x\<bar> \<le> 2 powi (- 53) * x"
    using err by simp
  have "real_of_int 1 * real 2 powi ?e \<le> round_at 2 ?q x"
    using lo by (intro round_at_ge) simp_all
  moreover have "(2::real) powi (- 1022) \<le> 2 powi ?e"
    using e by (intro power_int_increasing) simp_all
  ultimately have rlo: "2 powi (- 1022) \<le> ?r" by simp
  have "?e \<le> 1023"
  proof (rule ccontr)
    assume "\<not> ?e \<le> 1023"
    then have "1023 + 1 \<le> ?e" by simp
    then have "(2::real) powi (1023 + 1) \<le> 2 powi ?e"
      by (intro power_int_increasing) simp_all
    moreover have "(2::real) powi 1023 < 2 powi (1023 + 1)"
      by (intro power_int_strict_increasing) simp_all
    ultimately show False using lo assms(2) by linarith
  qed
  then have "round_at 2 ?q x \<le> real_of_int 1 * real 2 powi 1023"
    using assms(2) by (intro round_at_le) simp_all
  then have rhi: "?r \<le> 2 powi 1023" by (simp del: power_int_numeral)
  have "(2::real) powi 1023 < 2 powi 1024"
    by (intro power_int_strict_increasing) simp_all
  moreover have "0 < ?r"
    using rlo zero_less_power_int [of "2::real" "- 1022"] by linarith
  ultimately have "\<not> 2 powi 1024 \<le> \<bar>?r\<bar>"
    using rhi by simp
  then have "round_double x = DFin ?r"
    using x0 by (simp add: round_double_def Let_def q del: power_int_numeral)
  with rel rlo rhi show ?thesis by blast
qed

subsection \<open>The rounding at work\<close>

lemma round_half_even_nearest:
  assumes "\<bar>y - of_int n\<bar> < 1 / 2"
  shows "round_half_even y = n"
proof -
  have "\<bar>real_of_int (round_half_even y) - y\<bar> \<le> 1 / 2"
    by (rule round_half_even_error)
  with assms have "\<bar>real_of_int (round_half_even y) - real_of_int n\<bar> < 1"
    by linarith
  then have "\<bar>real_of_int (round_half_even y - n)\<bar> < 1"
    by simp
  then have "\<bar>round_half_even y - n\<bar> < 1"
    by (metis of_int_abs of_int_less_iff of_int_1)
  then show ?thesis by simp
qed

text \<open>
  A sum that needs 31 digits loses its last digits, and a quotient that has no finite
  expansion is cut to 28 digits.
\<close>

lemma context_round_31_digits: "context_round (10 ^ 30 + 1) = Inr (Fin (10 ^ 30))"
proof -
  let ?x = "(10::real) ^ 30 + 1"
  have e: "exponent 10 ?x = 30"
    by (rule exponent_eqI) simp_all
  have "Etiny \<le> 3"
    by (simp add: Etiny_def Emin_def context_prec_def)
  then have q: "max (exponent 10 ?x - (context_prec - 1)) Etiny = 3"
    by (simp only: e context_prec_def)
  have "round_half_even (?x / real 10 powi 3) = 10 ^ 27"
    by (rule round_half_even_nearest) simp
  then have r: "round_at 10 3 ?x = 10 ^ 30"
    by (simp add: round_at_def)
  have "400 \<le> Emax + 1"
    by (simp add: Emax_def)
  then have "(10::real) powi 400 \<le> 10 powi (Emax + 1)"
    by (intro power_int_increasing) simp_all
  moreover have "(10::real) ^ 30 < 10 powi 400"
    by simp
  ultimately have "\<not> 10 powi (Emax + 1) \<le> \<bar>(10::real) ^ 30\<bar>"
    by simp
  then show ?thesis
    by (simp only: context_round_def Let_def q r) simp
qed

lemma context_round_third:
  "context_round (4 / 3) = Inr (Fin (1333333333333333333333333333 / 10 ^ 27))"
proof -
  let ?x = "4 / 3 :: real"
  have e: "exponent 10 ?x = 0"
    by (rule exponent_eqI) simp_all
  have "Etiny \<le> - 27"
    by (simp add: Etiny_def Emin_def context_prec_def)
  then have q: "max (exponent 10 ?x - (context_prec - 1)) Etiny = - 27"
    by (simp only: e context_prec_def)
  have "round_half_even (?x / real 10 powi (- 27)) = 1333333333333333333333333333"
    by (rule round_half_even_nearest) simp
  then have r: "round_at 10 (- 27) ?x = 1333333333333333333333333333 / 10 ^ 27"
    by (simp add: round_at_def)
  have "1 \<le> Emax + 1"
    by (simp add: Emax_def)
  then have "(10::real) powi 1 \<le> 10 powi (Emax + 1)"
    by (intro power_int_increasing) simp_all
  moreover have "(1333333333333333333333333333 / 10 ^ 27 :: real) < 10 powi 1"
    by simp
  ultimately have "\<not> 10 powi (Emax + 1) \<le> \<bar>1333333333333333333333333333 / 10 ^ 27 :: real\<bar>"
    by simp
  then show ?thesis
    by (simp only: context_round_def Let_def q r) simp
qed

subsection \<open>Accumulated rounding errors\<close>

lemma unit_roundoff_bounds:
  shows "0 < unit_roundoff" and "unit_roundoff < 1"
    and "1 / 2 * 10 powi (- 27) \<le> unit_roundoff"
  by (simp_all add: unit_roundoff_def)

lemma near_one:
  assumes "\<bar>r - x\<bar> \<le> c * x" "c \<le> unit_roundoff" "0 \<le> x"
  shows "near 1 r x"
proof -
  have "c * x \<le> unit_roundoff * x"
    using assms(2,3) by (rule mult_right_mono)
  with assms(1) have "\<bar>r - x\<bar> \<le> unit_roundoff * x" by linarith
  then show ?thesis
    by (simp add: near_def algebra_simps abs_le_iff)
qed

lemma near_step:
  assumes "near n y x" "near 1 r y"
  shows "near (Suc n) r x"
proof -
  let ?u = "unit_roundoff"
  have u: "0 \<le> 1 - ?u" "0 \<le> 1 + ?u"
    using unit_roundoff_bounds by simp_all
  from assms(1) have l: "(1 - ?u) ^ n * x \<le> y" and h: "y \<le> (1 + ?u) ^ n * x"
    by (simp_all add: near_def)
  from assms(2) have l1: "(1 - ?u) * y \<le> r" and h1: "r \<le> (1 + ?u) * y"
    by (simp_all add: near_def)
  have "(1 - ?u) * ((1 - ?u) ^ n * x) \<le> (1 - ?u) * y"
    using l u(1) by (rule mult_left_mono)
  with l1 have low: "(1 - ?u) ^ Suc n * x \<le> r"
    by (simp add: mult.assoc)
  have "(1 + ?u) * y \<le> (1 + ?u) * ((1 + ?u) ^ n * x)"
    using h u(2) by (rule mult_left_mono)
  with h1 have "r \<le> (1 + ?u) ^ Suc n * x"
    by (simp add: mult.assoc)
  with low show ?thesis by (simp add: near_def)
qed

lemma near_mult:
  assumes "near n y x" "0 \<le> c"
  shows "near n (y * c) (x * c)"
proof -
  from assms(1) have l: "(1 - unit_roundoff) ^ n * x \<le> y"
    and h: "y \<le> (1 + unit_roundoff) ^ n * x"
    by (simp_all add: near_def)
  from l assms(2) have "(1 - unit_roundoff) ^ n * x * c \<le> y * c"
    by (rule mult_right_mono)
  moreover from h assms(2) have "y * c \<le> (1 + unit_roundoff) ^ n * x * c"
    by (rule mult_right_mono)
  ultimately show ?thesis by (simp add: near_def mult.assoc)
qed

lemma near_divide:
  assumes "near n y x" "0 < c"
  shows "near n (y / c) (x / c)"
  using near_mult [OF assms(1), of "1 / c"] assms(2) by simp

lemma near_sqrt:
  assumes "near (2 * n) y x" "0 \<le> x"
  shows "near n (sqrt y) (sqrt x)"
proof -
  let ?u = "unit_roundoff"
  have u: "0 \<le> 1 - ?u" "0 \<le> 1 + ?u"
    using unit_roundoff_bounds by simp_all
  from assms(1) have l: "(1 - ?u) ^ (2 * n) * x \<le> y" and h: "y \<le> (1 + ?u) ^ (2 * n) * x"
    by (simp_all add: near_def)
  have sq: "sqrt (c ^ (2 * n) * x) = c ^ n * sqrt x" if "0 \<le> c" for c
  proof -
    have "c ^ (2 * n) = (c ^ n)\<^sup>2"
      by (simp add: power_mult [symmetric] mult.commute)
    then have "sqrt (c ^ (2 * n) * x) = sqrt ((c ^ n)\<^sup>2) * sqrt x"
      by (simp add: real_sqrt_mult)
    also have "\<dots> = c ^ n * sqrt x"
      using that by simp
    finally show ?thesis .
  qed
  from l have "sqrt ((1 - ?u) ^ (2 * n) * x) \<le> sqrt y" by simp
  then have low: "(1 - ?u) ^ n * sqrt x \<le> sqrt y"
    by (simp only: sq [OF u(1)])
  from h have "sqrt y \<le> sqrt ((1 + ?u) ^ (2 * n) * x)" by simp
  then have "sqrt y \<le> (1 + ?u) ^ n * sqrt x"
    by (simp only: sq [OF u(2)])
  with low show ?thesis by (simp add: near_def)
qed

lemma near_factor_two:
  assumes "near n y x" "n \<le> 4" "0 \<le> x"
  shows "x / 2 \<le> y" and "y \<le> 2 * x"
proof -
  let ?u = "unit_roundoff"
  have u: "0 \<le> 1 - ?u" "1 - ?u \<le> 1" "1 \<le> 1 + ?u"
    using unit_roundoff_bounds by simp_all
  from assms(1) have l: "(1 - ?u) ^ n * x \<le> y" and h: "y \<le> (1 + ?u) ^ n * x"
    by (simp_all add: near_def)
  have "(1 - ?u) ^ 4 \<le> (1 - ?u) ^ n"
    using assms(2) u(1,2) by (rule power_decreasing)
  moreover have "1 / 2 \<le> (1 - ?u) ^ 4"
    by (simp add: unit_roundoff_def power_divide)
  ultimately have "1 / 2 \<le> (1 - ?u) ^ n" by linarith
  then have "1 / 2 * x \<le> (1 - ?u) ^ n * x"
    using assms(3) by (rule mult_right_mono)
  with l show "x / 2 \<le> y" by simp
  have "(1 + ?u) ^ n \<le> (1 + ?u) ^ 4"
    using assms(2) u(3) by (rule power_increasing)
  moreover have "(1 + ?u) ^ 4 \<le> 2"
    by (simp add: unit_roundoff_def power_divide)
  ultimately have "(1 + ?u) ^ n \<le> 2" by linarith
  then have "(1 + ?u) ^ n * x \<le> 2 * x"
    using assms(3) by (rule mult_right_mono)
  with h show "y \<le> 2 * x" by simp
qed

lemma near_three_error:
  assumes "near 3 y x" "0 \<le> x"
  shows "\<bar>y - x\<bar> \<le> 2 powi (- 51) * x"
proof -
  let ?u = "unit_roundoff"
  from assms(1) have l: "(1 - ?u) ^ 3 * x \<le> y" and h: "y \<le> (1 + ?u) ^ 3 * x"
    by (simp_all add: near_def)
  have "1 - 2 powi (- 51) \<le> (1 - ?u) ^ 3"
    by (simp add: unit_roundoff_def power_divide)
  then have "(1 - 2 powi (- 51)) * x \<le> (1 - ?u) ^ 3 * x"
    using assms(2) by (rule mult_right_mono)
  with l have low: "x - 2 powi (- 51) * x \<le> y"
    by (simp add: algebra_simps)
  have "(1 + ?u) ^ 3 \<le> 1 + 2 powi (- 51)"
    by (simp add: unit_roundoff_def power_divide)
  then have "(1 + ?u) ^ 3 * x \<le> (1 + 2 powi (- 51)) * x"
    using assms(2) by (rule mult_right_mono)
  with h have up: "y \<le> x + 2 powi (- 51) * x"
    by (simp add: algebra_simps)
  from low up show ?thesis
    unfolding abs_le_iff by linarith
qed

section \<open>The cost collection\<close>


lemma keys_dict_set: "set (map fst (dict_set k c cs)) = insert k (set (map fst cs))"
  by (induction cs) auto

lemma dict_set_keys_distinct:
  "keys_distinct cs \<Longrightarrow> keys_distinct (dict_set k c cs)"
  unfolding keys_distinct_def
proof (induction cs)
  case Nil
  then show ?case by simp
next
  case (Cons p ps)
  have "set (map fst (dict_set k c ps)) = insert k (set (map fst ps))"
    by (rule keys_dict_set)
  with Cons show ?case by auto
qed


text \<open>
  Every collection that a caller can build, from the empty one by \<open>add\<close>, has distinct
  keys.
\<close>

lemma Costs_init_keys_distinct: "keys_distinct Costs_init"
  by (simp add: Costs_init_def keys_distinct_def)

lemma Costs_add_keys_distinct:
  "keys_distinct cs \<Longrightarrow> Costs_add v cs = Inr cs' \<Longrightarrow> keys_distinct cs'"
  by (cases v) (auto intro: dict_set_keys_distinct)





text \<open>
  Claim C6. \<open>get\<close> builds its default with \<open>Cost(name)\<close>, a call that lacks the required
  argument \<open>value\<close>, and Python evaluates this default before it looks the name up:
  for every collection and every name, stored or not, \<open>get\<close> raises \<open>TypeError\<close>.
\<close>

theorem Costs_get_always_raises:
  "Costs_get parse cs n =
     Inl (TypeError ''__init__() missing 1 required positional argument: value'')"
  by (simp add: Costs_get_def)

text \<open>
  Claim C10. The string representation of a collection reads the attribute \<open>name\<close>,
  which neither the class \<open>Costs\<close> nor its constructor defines: for every collection
  it raises \<open>AttributeError\<close>.
\<close>

theorem Costs_repr_raises:
  "Costs_repr cs = Inl (AttributeError ''Costs object has no attribute name'')"
  by (simp add: Costs_repr_def Costs_getattr_def)

text \<open>
  What holds of the value of a cost: the constructor returns no cost with a value below
  zero, and the setter raises on every value below zero.
\<close>

lemma Cost_init_nonnegative:
  "Cost_init parse n v = Inr c \<Longrightarrow> decimal_less (cost_value c) (Fin 0) = Inr False"
  by (auto simp: Cost_init_def Cost_value_setter_def split: sum.splits if_splits)

lemma Cost_init_negative_raises:
  "Decimal parse v = Inr d \<Longrightarrow> decimal_less d (Fin 0) = Inr True \<Longrightarrow>
   \<exists>e. Cost_init parse n v = Inl e"
  by (auto simp: Cost_init_def Cost_value_setter_def split: sum.splits)

lemma Cost_set_value_negative:
  "Decimal parse v = Inr d \<Longrightarrow> decimal_less d (Fin 0) = Inr True \<Longrightarrow>
   Cost_set_value parse v c =
     (Some (ValueError ''The cost can not be negative:''), c\<lparr>cost_value := d\<rparr>)"
  by (cases v) (auto simp: Cost_set_value_def Cost_value_setter_def)

text \<open>
  Claim C7. The setter of \<open>Cost.value\<close> stores the converted value before it compares
  it with zero: assigning -1 to a cost whose value is 5 raises \<open>ValueError\<close> and leaves
  the cost with the value -1.
\<close>

theorem Cost_set_value_negative_stored:
  "Cost_set_value parse (PInt (- 1)) \<lparr>cost_name = ''Labor'', cost_value = Fin 5\<rparr> =
     (Some (ValueError ''The cost can not be negative:''),
      \<lparr>cost_name = ''Labor'', cost_value = Fin (- 1)\<rparr>)"
  by (simp add: Cost_set_value_def Cost_value_setter_def)

text \<open>
  The total of the costs 10 to the power 30 and 1 is 10 to the power 30: the context
  rounds the second addition.
\<close>

lemma Costs_total_rounds:
  "Costs_total [(''Rent'', \<lparr>cost_name = ''Rent'', cost_value = Fin (10 ^ 30)\<rparr>),
                (''Stamp'', \<lparr>cost_name = ''Stamp'', cost_value = Fin 1\<rparr>)] =
     Inr (Fin (10 ^ 30))"
proof -
  have "Etiny \<le> 30" and "(30::int) + 28 \<le> Emax + 1"
    by (simp_all add: Etiny_def Emin_def Emax_def context_prec_def)
  from context_round_exact [of 1 30, OF _ _ this]
  have "context_round (10 ^ 30) = Inr (Fin (10 ^ 30))"
    by simp
  then show ?thesis
    using context_round_31_digits by (simp add: Costs_total_def py_sum_def)
qed

section \<open>The optimum inventory level\<close>

lemma decimal_range_covers_double_range:
  shows "10 powi Emin \<le> (2::real) powi (- 1022)" and "(2::real) powi 1023 \<le> 10 powi Emax"
proof -
  have "Emin \<le> - 400" and "400 \<le> Emax"
    by (simp_all add: Emin_def Emax_def)
  then have "(10::real) powi Emin \<le> 10 powi (- 400)" and "(10::real) powi 400 \<le> 10 powi Emax"
    by (simp_all add: power_int_increasing del: power_int_numeral power_int_numeral_neg_numeral)
  moreover have "(10::real) powi (- 400) \<le> 2 powi (- 1022)" and "(2::real) powi 1023 \<le> 10 powi 400"
    by simp_all
  ultimately show "10 powi Emin \<le> (2::real) powi (- 1022)"
    and "(2::real) powi 1023 \<le> 10 powi Emax"
    by linarith+
qed

lemma sqrt_in_double_range:
  assumes "2 powi (- 1022) \<le> f" "f \<le> 2 powi 1023"
  shows "2 powi (- 1022) \<le> sqrt f" and "sqrt f \<le> 2 powi 1023"
proof -
  let ?l = "(2::real) powi (- 1022)"
  let ?h = "(2::real) powi 1023"
  have l: "0 \<le> ?l" "?l \<le> 1" and h: "1 \<le> ?h"
    by simp_all
  have "?l * ?l \<le> ?l * 1"
    using l by (intro mult_left_mono)
  with assms(1) have "?l * ?l \<le> f"
    by linarith
  then have "?l\<^sup>2 \<le> f"
    by (simp only: power2_eq_square)
  then have "sqrt (?l\<^sup>2) \<le> sqrt f"
    by (simp only: real_sqrt_le_iff)
  with l(1) show "?l \<le> sqrt f"
    by (simp only: real_sqrt_abs abs_of_nonneg)
  have "?h * 1 \<le> ?h * ?h"
    using h by (intro mult_left_mono) simp_all
  with assms(2) have "f \<le> ?h * ?h"
    by linarith
  then have "f \<le> ?h\<^sup>2"
    by (simp only: power2_eq_square)
  then have "sqrt f \<le> sqrt (?h\<^sup>2)"
    by (simp only: real_sqrt_le_iff)
  moreover have "0 \<le> ?h" using h by linarith
  ultimately show "sqrt f \<le> ?h"
    by (simp only: real_sqrt_abs abs_of_nonneg)
qed

text \<open>
  The formula of the optimum inventory level on finite positive operands inside the
  ranges: three roundings of the context and one conversion to a double under the
  square root, and one rounding of the root.
\<close>

lemma eoq_formula_error:
  assumes pos: "0 < D" "0 < K" "0 < H"
    and r1: "in_decimal_range (2 * D)"
    and r2: "in_decimal_range (2 * D * K)"
    and r3: "in_double_range (2 * D * K / H)"
  shows "\<exists>a b q v.
      decimal_mul (Fin 2) (Fin D) = Inr (Fin a) \<and>
      decimal_mul (Fin a) (Fin K) = Inr (Fin b) \<and>
      decimal_div (Fin b) (Fin H) = Inr (Fin q) \<and>
      math_sqrt (Fin q) = Inr (DFin v) \<and>
      \<bar>v - sqrt (2 * D * K / H)\<bar> \<le> 2 powi (- 51) * sqrt (2 * D * K / H)"
proof -
  define X where "X = 2 * D * K / H"
  define P where "P = 2 * D * K"
  define el where "el = (10::real) powi Emin"
  define eh where "eh = (10::real) powi Emax"
  define dl where "dl = (2::real) powi (- 1022)"
  define dh where "dh = (2::real) powi 1023"
  let ?c = "1 / 2 * (10::real) powi (- 27)"
  have c: "?c \<le> unit_roundoff" by (rule unit_roundoff_bounds(3))
  have u: "2 powi (- 53) \<le> unit_roundoff"
    by (simp add: unit_roundoff_def)
  have el0: "0 < el" by (simp add: el_def)
  have dl0: "0 < dl" by (simp add: dl_def)
  have cover: "el \<le> dl" "dh \<le> eh"
    using decimal_range_covers_double_range by (simp_all only: el_def eh_def dl_def dh_def)
  have X0: "0 < X" and P0: "0 < P" and D0: "0 \<le> 2 * D"
    using pos by (simp_all add: X_def P_def)
  have XP: "X = P / H" by (simp add: X_def P_def)
  have "(2::real) powi (- 1021) = 2 * 2 powi (- 1022)" and "(2::real) powi 1023 = 2 * 2 powi 1022"
    by simp_all
  with r3 have X_range: "2 * dl \<le> X" "2 * X \<le> dh"
    unfolding in_double_range_def X_def dl_def dh_def by linarith+
  from r1 have D_range: "2 * el \<le> 2 * D" "2 * (2 * D) \<le> eh"
    unfolding in_decimal_range_def el_def eh_def by blast+
  from r2 have P_range: "2 * el \<le> P" "2 * P \<le> eh"
    unfolding in_decimal_range_def el_def eh_def P_def by blast+
  have n1: "(1::nat) \<le> 4" and n2: "Suc 1 \<le> 4" and n3: "Suc (Suc 1) \<le> 4" by simp_all
  \<comment> \<open>the first product\<close>
  have "el \<le> 2 * D" and "2 * D \<le> eh"
    using D_range el0 pos(1) by linarith+
  then have "10 powi Emin \<le> 2 * D" and "2 * D \<le> 10 powi Emax"
    by (simp_all only: el_def eh_def)
  from context_round_error [OF this] obtain a where
    a: "context_round (2 * D) = Inr (Fin a)" and ea: "\<bar>a - 2 * D\<bar> \<le> ?c * (2 * D)"
    by blast
  have na: "near 1 a (2 * D)"
    using D0 by (rule near_one [OF ea c])
  \<comment> \<open>the second product\<close>
  have "near 1 (a * K) (2 * D * K)"
    using na pos(2) by (intro near_mult) simp_all
  then have nak: "near 1 (a * K) P"
    by (simp only: P_def)
  from near_factor_two [OF nak n1] P0 have "P / 2 \<le> a * K" and "a * K \<le> 2 * P"
    by simp_all
  with P_range have "el \<le> a * K" and "a * K \<le> eh"
    by linarith+
  then have ak: "10 powi Emin \<le> a * K" "a * K \<le> 10 powi Emax"
    by (simp_all only: el_def eh_def)
  from context_round_error [OF this] obtain b where
    b: "context_round (a * K) = Inr (Fin b)" and eb: "\<bar>b - a * K\<bar> \<le> ?c * (a * K)"
    by blast
  have "0 \<le> a * K"
    using \<open>el \<le> a * K\<close> el0 by linarith
  then have "near 1 b (a * K)"
    by (rule near_one [OF eb c])
  with nak have nb: "near (Suc 1) b P"
    by (rule near_step)
  \<comment> \<open>the quotient\<close>
  from nb pos(3) have "near (Suc 1) (b / H) (P / H)"
    by (rule near_divide)
  then have nbh: "near (Suc 1) (b / H) X"
    by (simp only: XP)
  from near_factor_two [OF nbh n2] X0 have "X / 2 \<le> b / H" and "b / H \<le> 2 * X"
    by simp_all
  with X_range cover have "el \<le> b / H" and "b / H \<le> eh"
    by linarith+
  then have bh: "10 powi Emin \<le> b / H" "b / H \<le> 10 powi Emax"
    by (simp_all only: el_def eh_def)
  from context_round_error [OF this] obtain q where
    q: "context_round (b / H) = Inr (Fin q)" and eq: "\<bar>q - b / H\<bar> \<le> ?c * (b / H)"
    by blast
  have "0 \<le> b / H"
    using \<open>el \<le> b / H\<close> el0 by linarith
  then have "near 1 q (b / H)"
    by (rule near_one [OF eq c])
  with nbh have nq: "near (Suc (Suc 1)) q X"
    by (rule near_step)
  \<comment> \<open>the conversion to a double\<close>
  from near_factor_two [OF nq n3] X0 have "X / 2 \<le> q" and "q \<le> 2 * X"
    by simp_all
  with X_range have "dl \<le> q" and "q \<le> dh"
    by linarith+
  then have qr: "2 powi (- 1022) \<le> q" "q \<le> 2 powi 1023"
    by (simp_all only: dl_def dh_def)
  from round_double_error [OF this] obtain f where
    f: "round_double q = DFin f" and ef: "\<bar>f - q\<bar> \<le> 2 powi (- 53) * q"
    and f1: "2 powi (- 1022) \<le> f" and f2: "f \<le> 2 powi 1023"
    by blast
  have q0: "0 \<le> q"
    using \<open>dl \<le> q\<close> dl0 by linarith
  have "near 1 f q"
    using q0 by (rule near_one [OF ef u])
  with nq have "near (Suc (Suc (Suc 1))) f X"
    by (rule near_step)
  moreover have "Suc (Suc (Suc 1)) = 2 * 2" by simp
  ultimately have nf: "near (2 * 2) f X"
    by (simp only:)
  \<comment> \<open>the square root\<close>
  from nf X0 have ns: "near 2 (sqrt f) (sqrt X)"
    by (intro near_sqrt) simp_all
  from sqrt_in_double_range [OF f1 f2]
  have sr: "2 powi (- 1022) \<le> sqrt f" "sqrt f \<le> 2 powi 1023" .
  from round_double_error [OF sr] obtain v where
    v: "round_double (sqrt f) = DFin v" and ev: "\<bar>v - sqrt f\<bar> \<le> 2 powi (- 53) * sqrt f"
    by blast
  have "dl \<le> f"
    using f1 by (simp only: dl_def)
  with dl0 have f0: "0 \<le> f"
    by linarith
  have "near 1 v (sqrt f)"
    using f0 by (intro near_one [OF ev u]) simp
  with ns have "near (Suc 2) v (sqrt X)"
    by (rule near_step)
  moreover have "Suc 2 = 3" by simp
  ultimately have "near 3 v (sqrt X)"
    by (simp only:)
  then have "\<bar>v - sqrt X\<bar> \<le> 2 powi (- 51) * sqrt X"
    using X0 by (intro near_three_error) simp_all
  then have bound: "\<bar>v - sqrt (2 * D * K / H)\<bar> \<le> 2 powi (- 51) * sqrt (2 * D * K / H)"
    by (simp only: X_def)
  have "decimal_mul (Fin 2) (Fin D) = Inr (Fin a)"
    using a by simp
  moreover have "decimal_mul (Fin a) (Fin K) = Inr (Fin b)"
    using b by simp
  moreover have "decimal_div (Fin b) (Fin H) = Inr (Fin q)"
    using q pos(3) by simp
  moreover have "math_sqrt (Fin q) = Inr (DFin v)"
    using f v f0 by (simp add: math_sqrt_def not_less)
  ultimately show ?thesis
    using bound by blast
qed

lemma in_ranges_moderate:
  assumes "1 \<le> x" "x \<le> 10 ^ 100"
  shows "in_decimal_range x" and "in_double_range x"
proof -
  have "Emin \<le> - 1" and "101 \<le> Emax"
    by (simp_all add: Emin_def Emax_def)
  then have "(10::real) powi Emin \<le> 10 powi (- 1)" and "(10::real) powi 101 \<le> 10 powi Emax"
    by (intro power_int_increasing; simp)+
  moreover have "2 * (10::real) powi (- 1) \<le> 1" and "2 * (10::real) ^ 100 \<le> 10 powi 101"
    by simp_all
  ultimately have "2 * 10 powi Emin \<le> x" and "2 * x \<le> 10 powi Emax"
    using assms by linarith+
  then show "in_decimal_range x"
    by (simp only: in_decimal_range_def)
  have "(2::real) powi (- 1021) \<le> 1" and "(10::real) ^ 100 \<le> 2 powi 1022"
    by simp_all
  with assms have "2 powi (- 1021) \<le> x" and "x \<le> 2 powi 1022"
    by linarith+
  then show "in_double_range x"
    by (simp only: in_double_range_def)
qed

lemma sqrt_ten_thousand: "sqrt 10000 = 100"
  by (rule real_sqrt_unique) simp_all

text \<open>The computation of the example of the specification, which is exact.\<close>

lemma eoq_example:
  shows "context_round 2000 = Inr (Fin 2000)"
    and "context_round 200000 = Inr (Fin 200000)"
    and "context_round 10000 = Inr (Fin 10000)"
    and "math_sqrt (Fin 10000) = Inr (DFin 100)"
proof -
  show "context_round 2000 = Inr (Fin 2000)"
    using context_round_int [of 2000] by simp
  show "context_round 200000 = Inr (Fin 200000)"
    using context_round_int [of 200000] by simp
  show "context_round 10000 = Inr (Fin 10000)"
    using context_round_int [of 10000] by simp
  show "math_sqrt (Fin 10000) = Inr (DFin 100)"
    using round_double_int [of 10000] round_double_int [of 100]
    by (simp add: math_sqrt_def sqrt_ten_thousand)
qed

text \<open>
  Claim C1, as amended. For a product whose demand \<open>D\<close>, total variable cost \<open>K\<close> and
  total storage cost \<open>h\<close> are finite and positive, with \<open>2 * D\<close> and \<open>2 * D * K\<close> in the
  exponent range of the decimal context and \<open>2 * D * K / h\<close> in the range of the normal
  doubles, the optimum inventory level is a finite value whose relative distance from
  the square root of \<open>2 * D * K / h\<close> is at most 2 to the power -51; for \<open>D = 1000\<close>,
  \<open>K = 100\<close> and \<open>h = 20\<close> it is 100.
\<close>

theorem optimum_inventory_level_eoq:
  assumes "demand p = Fin D"
    and "total_variable_cost p = Inr (Fin K)"
    and "total_storage_cost p = Inr (Fin H)"
    and "0 < D" and "0 < K" and "0 < H"
    and "in_decimal_range (2 * D)"
    and "in_decimal_range (2 * D * K)"
    and "in_double_range (2 * D * K / H)"
  shows "(\<exists>v. optimum_inventory_level p = Inr (Fin v) \<and>
            \<bar>v - sqrt (2 * D * K / H)\<bar> \<le> 2 powi (- 51) * sqrt (2 * D * K / H)) \<and>
    (D = 1000 \<and> K = 100 \<and> H = 20 \<longrightarrow> optimum_inventory_level p = Inr (Fin 100))"
proof
  have guards: "decimal_truthy (Fin D)" "decimal_truthy (Fin K)" "decimal_truthy (Fin H)"
    using assms(4-6) by (simp_all add: decimal_truthy_def)
  from eoq_formula_error [OF assms(4-9)] obtain a b q v where
    "decimal_mul (Fin 2) (Fin D) = Inr (Fin a)"
    "decimal_mul (Fin a) (Fin K) = Inr (Fin b)"
    "decimal_div (Fin b) (Fin H) = Inr (Fin q)"
    "math_sqrt (Fin q) = Inr (DFin v)"
    and bound: "\<bar>v - sqrt (2 * D * K / H)\<bar> \<le> 2 powi (- 51) * sqrt (2 * D * K / H)"
    by blast
  then have "optimum_inventory_level p = Inr (Fin v)"
    using guards assms(1-3) by (simp add: optimum_inventory_level_def)
  with bound
  show "\<exists>v. optimum_inventory_level p = Inr (Fin v) \<and>
          \<bar>v - sqrt (2 * D * K / H)\<bar> \<le> 2 powi (- 51) * sqrt (2 * D * K / H)"
    by blast
  show "D = 1000 \<and> K = 100 \<and> H = 20 \<longrightarrow> optimum_inventory_level p = Inr (Fin 100)"
  proof
    assume "D = 1000 \<and> K = 100 \<and> H = 20"
    with assms(1-3) have "demand p = Fin 1000" "total_variable_cost p = Inr (Fin 100)"
      "total_storage_cost p = Inr (Fin 20)"
      by simp_all
    then show "optimum_inventory_level p = Inr (Fin 100)"
      by (simp add: optimum_inventory_level_def decimal_truthy_def eoq_example)
  qed
qed

theorem optimum_inventory_level_eoq_witness:
  "demand \<lparr>product_name = ''Product III'', inventory = Fin 100, demand = Fin 1000,
        lead_time = Fin 0, price = Fin 0,
        storage_costs = [(''Warehousing'', \<lparr>cost_name = ''Warehousing'', cost_value = Fin 20\<rparr>)],
        kind = ProducedProduct
          [(''Energy Costs'', \<lparr>cost_name = ''Energy Costs'', cost_value = Fin 40\<rparr>),
           (''Labor Costs'', \<lparr>cost_name = ''Labor Costs'', cost_value = Fin 60\<rparr>)]\<rparr> = Fin 1000 \<and>
   total_variable_cost \<lparr>product_name = ''Product III'', inventory = Fin 100, demand = Fin 1000,
        lead_time = Fin 0, price = Fin 0,
        storage_costs = [(''Warehousing'', \<lparr>cost_name = ''Warehousing'', cost_value = Fin 20\<rparr>)],
        kind = ProducedProduct
          [(''Energy Costs'', \<lparr>cost_name = ''Energy Costs'', cost_value = Fin 40\<rparr>),
           (''Labor Costs'', \<lparr>cost_name = ''Labor Costs'', cost_value = Fin 60\<rparr>)]\<rparr> = Inr (Fin 100) \<and>
   total_storage_cost \<lparr>product_name = ''Product III'', inventory = Fin 100, demand = Fin 1000,
        lead_time = Fin 0, price = Fin 0,
        storage_costs = [(''Warehousing'', \<lparr>cost_name = ''Warehousing'', cost_value = Fin 20\<rparr>)],
        kind = ProducedProduct
          [(''Energy Costs'', \<lparr>cost_name = ''Energy Costs'', cost_value = Fin 40\<rparr>),
           (''Labor Costs'', \<lparr>cost_name = ''Labor Costs'', cost_value = Fin 60\<rparr>)]\<rparr> = Inr (Fin 20) \<and>
   in_decimal_range (2 * 1000) \<and>
   in_decimal_range (2 * 1000 * 100) \<and>
   in_double_range (2 * 1000 * 100 / 20) \<and>
   optimum_inventory_level \<lparr>product_name = ''Product III'', inventory = Fin 100, demand = Fin 1000,
        lead_time = Fin 0, price = Fin 0,
        storage_costs = [(''Warehousing'', \<lparr>cost_name = ''Warehousing'', cost_value = Fin 20\<rparr>)],
        kind = ProducedProduct
          [(''Energy Costs'', \<lparr>cost_name = ''Energy Costs'', cost_value = Fin 40\<rparr>),
           (''Labor Costs'', \<lparr>cost_name = ''Labor Costs'', cost_value = Fin 60\<rparr>)]\<rparr> = Inr (Fin 100)"
proof -
  let ?p = "\<lparr>product_name = ''Product III'', inventory = Fin 100, demand = Fin 1000,
        lead_time = Fin 0, price = Fin 0,
        storage_costs = [(''Warehousing'', \<lparr>cost_name = ''Warehousing'', cost_value = Fin 20\<rparr>)],
        kind = ProducedProduct
          [(''Energy Costs'', \<lparr>cost_name = ''Energy Costs'', cost_value = Fin 40\<rparr>),
           (''Labor Costs'', \<lparr>cost_name = ''Labor Costs'', cost_value = Fin 60\<rparr>)]\<rparr>"
  have d: "demand ?p = Fin 1000"
    by simp
  have "py_sum [Fin 40, Fin 60] = Inr (Fin 100)"
    using context_round_int [of 40] context_round_int [of 100] by (simp add: py_sum_def)
  then have k: "total_variable_cost ?p = Inr (Fin 100)"
    by (simp add: total_variable_cost_def Costs_total_def)
  have "py_sum [Fin 20] = Inr (Fin 20)"
    using context_round_int [of 20] by (simp add: py_sum_def)
  then have h: "total_storage_cost ?p = Inr (Fin 20)"
    by (simp add: total_storage_cost_def Costs_total_def)
  have r1: "in_decimal_range (2 * 1000)"
    by (rule in_ranges_moderate) simp_all
  have r2: "in_decimal_range (2 * 1000 * 100)"
    by (rule in_ranges_moderate) simp_all
  have r3: "in_double_range (2 * 1000 * 100 / 20)"
    by (rule in_ranges_moderate) simp_all
  have "optimum_inventory_level ?p = Inr (Fin 100)"
    using optimum_inventory_level_eoq [OF d k h _ _ _ r1 r2 r3] by simp
  with d k h r1 r2 r3 show ?thesis
    by (intro conjI)
qed

text \<open>
  The claim as it was stated, for every positive demand and cost, fails where the
  quotient leaves the range of a double: with a demand of 10 to the power 400 and costs
  of 1 the square root is taken of an infinite double, and the optimum inventory level
  is \<open>Infinity\<close>.
\<close>

theorem optimum_inventory_level_eoq_counterexample:
  "demand \<lparr>product_name = ''Product IV'', inventory = Fin 0, demand = Fin (10 ^ 400),
        lead_time = Fin 0, price = Fin 0,
        storage_costs = [(''Warehousing'', \<lparr>cost_name = ''Warehousing'', cost_value = Fin 1\<rparr>)],
        kind = ProducedProduct
          [(''Labor Costs'', \<lparr>cost_name = ''Labor Costs'', cost_value = Fin 1\<rparr>)]\<rparr> = Fin (10 ^ 400) \<and>
   total_variable_cost \<lparr>product_name = ''Product IV'', inventory = Fin 0, demand = Fin (10 ^ 400),
        lead_time = Fin 0, price = Fin 0,
        storage_costs = [(''Warehousing'', \<lparr>cost_name = ''Warehousing'', cost_value = Fin 1\<rparr>)],
        kind = ProducedProduct
          [(''Labor Costs'', \<lparr>cost_name = ''Labor Costs'', cost_value = Fin 1\<rparr>)]\<rparr> = Inr (Fin 1) \<and>
   total_storage_cost \<lparr>product_name = ''Product IV'', inventory = Fin 0, demand = Fin (10 ^ 400),
        lead_time = Fin 0, price = Fin 0,
        storage_costs = [(''Warehousing'', \<lparr>cost_name = ''Warehousing'', cost_value = Fin 1\<rparr>)],
        kind = ProducedProduct
          [(''Labor Costs'', \<lparr>cost_name = ''Labor Costs'', cost_value = Fin 1\<rparr>)]\<rparr> = Inr (Fin 1) \<and>
   optimum_inventory_level \<lparr>product_name = ''Product IV'', inventory = Fin 0, demand = Fin (10 ^ 400),
        lead_time = Fin 0, price = Fin 0,
        storage_costs = [(''Warehousing'', \<lparr>cost_name = ''Warehousing'', cost_value = Fin 1\<rparr>)],
        kind = ProducedProduct
          [(''Labor Costs'', \<lparr>cost_name = ''Labor Costs'', cost_value = Fin 1\<rparr>)]\<rparr> = Inr Infinity"
proof -
  let ?p = "\<lparr>product_name = ''Product IV'', inventory = Fin 0, demand = Fin (10 ^ 400),
        lead_time = Fin 0, price = Fin 0,
        storage_costs = [(''Warehousing'', \<lparr>cost_name = ''Warehousing'', cost_value = Fin 1\<rparr>)],
        kind = ProducedProduct
          [(''Labor Costs'', \<lparr>cost_name = ''Labor Costs'', cost_value = Fin 1\<rparr>)]\<rparr>"
  have one: "py_sum [Fin 1] = Inr (Fin 1)"
    using context_round_int [of 1] by (simp add: py_sum_def)
  have d: "demand ?p = Fin (10 ^ 400)"
    by simp
  have k: "total_variable_cost ?p = Inr (Fin 1)"
    using one by (simp add: total_variable_cost_def Costs_total_def)
  have h: "total_storage_cost ?p = Inr (Fin 1)"
    using one by (simp add: total_storage_cost_def Costs_total_def)
  have "Etiny \<le> 400" and "(400::int) + 28 \<le> Emax + 1"
    by (simp_all add: Etiny_def Emin_def Emax_def context_prec_def)
  from context_round_exact [of 2 400, OF _ _ this]
  have c: "context_round (2 * 10 ^ 400) = Inr (Fin (2 * 10 ^ 400))"
    by simp
  have "(2::real) powi 1024 \<le> 2 * 10 ^ 400"
    by simp
  then have "round_double (2 * 10 ^ 400) = DPosInf"
    by (rule round_double_overflow)
  then have s: "math_sqrt (Fin (2 * 10 ^ 400)) = Inr DPosInf"
    by (simp add: math_sqrt_def)
  have "optimum_inventory_level ?p = Inr Infinity"
    using k h c s by (simp add: optimum_inventory_level_def decimal_truthy_def)
  with d k h show ?thesis
    by (intro conjI)
qed

text \<open>
  Claim C2. Reading the optimum inventory level of a product whose demand is zero raises
  the error about the demand; with a positive demand and a zero total storage cost it
  raises the error about the storage cost; with a positive demand, a positive total
  storage cost and a zero total variable cost it raises the error about the variable
  cost. The source raises the three as \<open>RuntimeError\<close> with three different messages.
\<close>

theorem optimum_inventory_level_zero_guards:
  "(demand p = Fin 0 \<longrightarrow>
      optimum_inventory_level p = Inl (RuntimeError ''The demand must be positive.'')) \<and>
   (positive (demand p) \<and> total_storage_cost p = Inr (Fin 0) \<longrightarrow>
      optimum_inventory_level p =
        Inl (RuntimeError ''The total storage cost must be positive.'')) \<and>
   (positive (demand p) \<and> (\<exists>h. total_storage_cost p = Inr h \<and> positive h) \<and>
    total_variable_cost p = Inr (Fin 0) \<longrightarrow>
      optimum_inventory_level p =
        Inl (RuntimeError ''The total variable cost must be positive.''))"
  by (auto simp: optimum_inventory_level_def decimal_truthy_def positive_def)

theorem optimum_inventory_level_zero_guards_witness:
  "optimum_inventory_level \<lparr>product_name = ''A'', inventory = Fin 0, demand = Fin 0,
        lead_time = Fin 0, price = Fin 0,
        storage_costs = [(''Taxes'', \<lparr>cost_name = ''Taxes'', cost_value = Fin 20\<rparr>)],
        kind = PurchasedProduct
          [(''Freight'', \<lparr>cost_name = ''Freight'', cost_value = Fin 100\<rparr>)]\<rparr>
     = Inl (RuntimeError ''The demand must be positive.'') \<and>
   optimum_inventory_level \<lparr>product_name = ''B'', inventory = Fin 0, demand = Fin 1000,
        lead_time = Fin 0, price = Fin 0,
        storage_costs = [],
        kind = PurchasedProduct
          [(''Freight'', \<lparr>cost_name = ''Freight'', cost_value = Fin 100\<rparr>)]\<rparr>
     = Inl (RuntimeError ''The total storage cost must be positive.'') \<and>
   optimum_inventory_level \<lparr>product_name = ''C'', inventory = Fin 0, demand = Fin 1000,
        lead_time = Fin 0, price = Fin 0,
        storage_costs = [(''Taxes'', \<lparr>cost_name = ''Taxes'', cost_value = Fin 20\<rparr>)],
        kind = PurchasedProduct []\<rparr>
     = Inl (RuntimeError ''The total variable cost must be positive.'')"
proof -
  let ?a = "\<lparr>product_name = ''A'', inventory = Fin 0, demand = Fin 0,
        lead_time = Fin 0, price = Fin 0,
        storage_costs = [(''Taxes'', \<lparr>cost_name = ''Taxes'', cost_value = Fin 20\<rparr>)],
        kind = PurchasedProduct
          [(''Freight'', \<lparr>cost_name = ''Freight'', cost_value = Fin 100\<rparr>)]\<rparr>"
  let ?b = "\<lparr>product_name = ''B'', inventory = Fin 0, demand = Fin 1000,
        lead_time = Fin 0, price = Fin 0,
        storage_costs = [],
        kind = PurchasedProduct
          [(''Freight'', \<lparr>cost_name = ''Freight'', cost_value = Fin 100\<rparr>)]\<rparr>"
  let ?c = "\<lparr>product_name = ''C'', inventory = Fin 0, demand = Fin 1000,
        lead_time = Fin 0, price = Fin 0,
        storage_costs = [(''Taxes'', \<lparr>cost_name = ''Taxes'', cost_value = Fin 20\<rparr>)],
        kind = PurchasedProduct []\<rparr>"
  have a: "demand ?a = Fin 0"
    by simp
  have b: "positive (demand ?b) \<and> total_storage_cost ?b = Inr (Fin 0)"
    by (simp add: positive_def total_storage_cost_def Costs_total_def py_sum_def)
  have "py_sum [Fin 20] = Inr (Fin 20)"
    using context_round_int [of 20] by (simp add: py_sum_def)
  then have c: "positive (demand ?c) \<and>
      (\<exists>h. total_storage_cost ?c = Inr h \<and> positive h) \<and>
      total_variable_cost ?c = Inr (Fin 0)"
    by (simp add: positive_def total_storage_cost_def total_variable_cost_def
        Costs_total_def py_sum_def)
  from optimum_inventory_level_zero_guards [of ?a] a
  have ra: "optimum_inventory_level ?a = Inl (RuntimeError ''The demand must be positive.'')"
    by blast
  from optimum_inventory_level_zero_guards [of ?b] b
  have rb: "optimum_inventory_level ?b =
      Inl (RuntimeError ''The total storage cost must be positive.'')"
    by blast
  from optimum_inventory_level_zero_guards [of ?c] c
  have rc: "optimum_inventory_level ?c =
      Inl (RuntimeError ''The total variable cost must be positive.'')"
    by blast
  from ra rb rc show ?thesis
    by (intro conjI)
qed

section \<open>The simulator\<close>

text \<open>
  Claim C9. The constructor returns a simulator exactly when \<open>times\<close> is an instance of
  \<open>int\<close> that is not negative and \<open>title\<close> is a non-empty string. Any other
  \<open>times\<close> raises \<open>AttributeError\<close>, and with an accepted \<open>times\<close> any other
  \<open>title\<close> raises \<open>TypeError\<close>: these are the two exceptions of the source that
  report invalid arguments.
\<close>

theorem Simulator_init_validation:
  "((\<exists>s. Simulator_init n t = Inr s) \<longleftrightarrow>
      isinstance_int n \<and> 0 \<le> int_of_pyval n \<and> (\<exists>x. t = PStr x \<and> x \<noteq> [])) \<and>
   (\<not> (isinstance_int n \<and> 0 \<le> int_of_pyval n) \<longrightarrow>
      Simulator_init n t = Inl (AttributeError ''Invalid simulator run times:'')) \<and>
   (isinstance_int n \<and> 0 \<le> int_of_pyval n \<and> \<not> (\<exists>x. t = PStr x \<and> x \<noteq> []) \<longrightarrow>
      Simulator_init n t = Inl (TypeError ''Invalid simulator title:''))"
  by (cases t) (auto simp: Simulator_init_def)

theorem Simulator_init_validation_witness:
  "(\<exists>s. Simulator_init (PInt 10) (PStr ''Example'') = Inr s) \<and>
   Simulator_init (PInt (- 1)) (PStr ''Example'') =
     Inl (AttributeError ''Invalid simulator run times:'') \<and>
   Simulator_init (PFloat (DFin 2)) (PStr ''Example'') =
     Inl (AttributeError ''Invalid simulator run times:'') \<and>
   Simulator_init (PInt 10) (PStr '''') = Inl (TypeError ''Invalid simulator title:'') \<and>
   Simulator_init (PInt 10) PNone = Inl (TypeError ''Invalid simulator title:'')"
  using Simulator_init_validation [of "PInt 10" "PStr ''Example''"]
    Simulator_init_validation [of "PInt (- 1)" "PStr ''Example''"]
    Simulator_init_validation [of "PFloat (DFin 2)" "PStr ''Example''"]
    Simulator_init_validation [of "PInt 10" "PStr ''''"]
    Simulator_init_validation [of "PInt 10" PNone]
  by simp

text \<open>
  The two comparisons of \<open>normal\<close> come before everything else: a mean above \<open>upper\<close>
  or below \<open>lower\<close> raises \<open>ValueError\<close> whatever the draw would have been.
\<close>

lemma normal_mean_checks:
  shows "double_less upper mean \<Longrightarrow>
           normal draw mean std upper lower = Inl (ValueError ''Mean is too high:'')"
    and "\<not> double_less upper mean \<Longrightarrow> double_less mean lower \<Longrightarrow>
           normal draw mean std upper lower = Inl (ValueError ''Mean is too low:'')"
  by (simp_all add: normal_def)

text \<open>
  Claim C3. The two comparisons admit a mean that is equal to both bounds. The
  standardised bounds are then both zero, which SciPy's \<open>truncnorm\<close> rejects: the
  call \<open>normal(mean=5, std=1, upper=5, lower=5)\<close> raises \<open>ValueError\<close> and returns no
  value, whatever the draw.
\<close>

theorem normal_point_interval_raises:
  "normal draw (DFin 5) (DFin 1) (DFin 5) (DFin 5) =
     Inl (ValueError ''Domain error in arguments.'')"
  by (simp add: normal_def truncnorm_rvs_def round_double_def)


lemma trials_abort:
  "length ds = i \<Longrightarrow> i < n \<Longrightarrow>
   (\<And>j. j < i \<Longrightarrow> fn (k + j) = Inr (PDecimal (ds ! j))) \<Longrightarrow>
   fn (k + i) = Inl e \<or>
     (\<exists>v. fn (k + i) = Inr v \<and> \<not> isinstance_Decimal v \<and>
          e = TypeError ''Expecting a Decimal, got:'') \<Longrightarrow>
   trials fn k n s = (Some e, s\<lparr>sim_results := sim_results s @ ds\<rparr>)"
proof (induction n arbitrary: k s ds i)
  case 0
  then show ?case by simp
next
  case (Suc n)
  show ?case
  proof (cases ds)
    case Nil
    with Suc.prems(1) have i: "i = 0" by simp
    from Suc.prems(4) i consider
      (raised) "fn k = Inl e"
      | (wrong) v where "fn k = Inr v" "\<not> isinstance_Decimal v"
          "e = TypeError ''Expecting a Decimal, got:''"
      by auto
    then show ?thesis
    proof cases
      case raised
      with Nil show ?thesis by simp
    next
      case wrong
      with Nil show ?thesis by (cases v) simp_all
    qed
  next
    case (Cons d ds')
    with Suc.prems(1,2) obtain i' where i: "i = Suc i'" and len: "length ds' = i'"
      and lt: "i' < n"
      by (cases i) auto
    from Suc.prems(3) [of 0] Cons i have first: "fn k = Inr (PDecimal d)"
      by simp
    have rest: "fn (Suc k + j) = Inr (PDecimal (ds' ! j))" if "j < i'" for j
      using Suc.prems(3) [of "Suc j"] that Cons i by simp
    have fails: "fn (Suc k + i') = Inl e \<or>
        (\<exists>v. fn (Suc k + i') = Inr v \<and> \<not> isinstance_Decimal v \<and>
             e = TypeError ''Expecting a Decimal, got:'')"
      using Suc.prems(4) i by simp
    let ?s = "s\<lparr>sim_results := sim_results s @ [d]\<rparr>"
    have "trials fn (Suc k) n ?s = (Some e, ?s\<lparr>sim_results := sim_results ?s @ ds'\<rparr>)"
      using len lt rest fails by (rule Suc.IH)
    with first Cons show ?thesis by simp
  qed
qed




text \<open>
  What holds of a run that fails. When the trial function returns decimals in the
  iterations before number \<open>i\<close> and in iteration \<open>i\<close> raises, or returns a value that
  is not a decimal (which makes the loop raise \<open>TypeError\<close>), the loop stops there: the
  simulator holds what it held before the run followed by the \<open>i\<close> accepted results,
  and nothing is printed. The \<open>with\<close> statement raises a \<open>RuntimeError\<close> that carries
  the exception only when the class of the exception can be called without arguments.
\<close>

lemma run_aborts_at_failing_trial:
  assumes "length ds = i"
    and "i < nat (sim_times s)"
    and "\<forall>j < i. fn j = Inr (PDecimal (ds ! j))"
    and "fn i = Inl e \<or>
      (\<exists>v. fn i = Inr v \<and> \<not> isinstance_Decimal v \<and>
           e = TypeError ''Expecting a Decimal, got:'')"
  shows "decorated fn s = (Some e, s\<lparr>sim_results := sim_results s @ ds\<rparr>)"
    and "run fn s out =
      (Some (if callable_without_arguments e
             then RuntimeErrorFrom ''Failed to run simulator!'' e
             else TypeError ''exception class called without its required arguments''),
       s\<lparr>sim_results := sim_results s @ ds\<rparr>, out)"
proof -
  have "trials fn 0 (nat (sim_times s)) s = (Some e, s\<lparr>sim_results := sim_results s @ ds\<rparr>)"
    using assms by (intro trials_abort) simp_all
  then show d: "decorated fn s = (Some e, s\<lparr>sim_results := sim_results s @ ds\<rparr>)"
    by (simp add: decorated_def)
  then show "run fn s out =
      (Some (if callable_without_arguments e
             then RuntimeErrorFrom ''Failed to run simulator!'' e
             else TypeError ''exception class called without its required arguments''),
       s\<lparr>sim_results := sim_results s @ ds\<rparr>, out)"
    by (simp add: run_def Simulator_exit_def)
qed

text \<open>
  Claim C5. The exit of the context manager chains its \<open>RuntimeError\<close> to the class of
  the exception, not to the exception, and Python calls that class without arguments:
  when the second call of the trial function raises an exception whose class needs
  arguments, such as \<open>UnicodeDecodeError\<close>, the caller of the run gets a bare
  \<open>TypeError\<close> in place of the \<open>RuntimeError\<close> that carries the failure. The one
  accepted result is retained and nothing is printed.
\<close>

theorem run_failure_not_wrapped:
  "run (\<lambda>k. if k < 1 then Inr (PDecimal (Fin 7))
            else Inl (OtherError ''UnicodeDecodeError'' False))
     \<lparr>sim_times = 3, sim_title = ''Example'', sim_results = []\<rparr> [] =
     (Some (TypeError ''exception class called without its required arguments''),
      \<lparr>sim_times = 3, sim_title = ''Example'', sim_results = [Fin 7]\<rparr>, [])"
proof -
  let ?s = "\<lparr>sim_times = 3, sim_title = ''Example'', sim_results = []\<rparr>"
  let ?g = "\<lambda>k::nat. if k < 1 then Inr (PDecimal (Fin 7))
                      else (Inl (OtherError ''UnicodeDecodeError'' False) :: error + pyval)"
  have "trials ?g 0 (nat (sim_times ?s)) ?s =
      (Some (OtherError ''UnicodeDecodeError'' False),
       \<lparr>sim_times = 3, sim_title = ''Example'', sim_results = [Fin 7]\<rparr>)"
    by (simp add: numeral_3_eq_3)
  then show ?thesis
    by (simp add: run_def decorated_def Simulator_exit_def)
qed

text \<open>
  The statistics on special values and on a mean that needs rounding: the average of
  1, 1 and 2 has 28 digits, the sum of the two infinities raises, and so does the
  maximum of two NaNs.
\<close>

lemma average_rounds:
  "average \<lparr>sim_times = 3, sim_title = ''Example'', sim_results = [Fin 1, Fin 1, Fin 2]\<rparr> =
     Inr (Fin (1333333333333333333333333333 / 10 ^ 27))"
proof -
  have "py_sum [Fin 1, Fin 1, Fin 2] = Inr (Fin 4)"
    using context_round_int [of 1] context_round_int [of 2] context_round_int [of 4]
    by (simp add: py_sum_def)
  then show ?thesis
    using context_round_third by (simp add: average_def)
qed

lemma statistics_raise_on_special_values:
  shows "average \<lparr>sim_times = 2, sim_title = ''Example'',
                   sim_results = [Infinity, NegInfinity]\<rparr> =
           Inl (InvalidOperation ''-INF + INF'')"
    and "maximum \<lparr>sim_times = 2, sim_title = ''Example'', sim_results = [NaN, NaN]\<rparr> =
           Inl (InvalidOperation ''comparison involving NaN'')"
  by (simp_all add: average_def maximum_def py_sum_def)

end
